theory Spec2Isabelle
  imports Complex_Main "HOL-Library.Multiset"
begin

section \<open>Numbers\<close>

text \<open>
  The program computes with JavaScript numbers (IEEE doubles). The model keeps every
  finite number as an exact rational: rounding and overflow are idealised away, and there
  is one zero, read as \<open>+0\<close>. The non-finite values that an unguarded division produces
  are written out, so that \<open>x / 0\<close> is a value of the model and not an error.
\<close>

datatype jsnum = Finite rat | PosInfinity | NegInfinity | NaN

definition js_div :: "rat \<Rightarrow> rat \<Rightarrow> jsnum" where
  "js_div a b =
     (if b = 0 then (if a = 0 then NaN else if 0 < a then PosInfinity else NegInfinity)
      else Finite (a / b))"

fun js_mul :: "jsnum \<Rightarrow> rat \<Rightarrow> jsnum" where
  "js_mul (Finite a) c = Finite (a * c)"
| "js_mul PosInfinity c = (if c = 0 then NaN else if 0 < c then PosInfinity else NegInfinity)"
| "js_mul NegInfinity c = (if c = 0 then NaN else if 0 < c then NegInfinity else PosInfinity)"
| "js_mul NaN c = NaN"

text \<open>
  Addition, for adding up what a division returned, and the sum of a list from 0 as
  \<open>reduce\<close> computes it.
\<close>

fun js_add :: "jsnum \<Rightarrow> jsnum \<Rightarrow> jsnum" where
  "js_add (Finite a) (Finite b) = Finite (a + b)"
| "js_add NaN y = NaN"
| "js_add x NaN = NaN"
| "js_add PosInfinity NegInfinity = NaN"
| "js_add NegInfinity PosInfinity = NaN"
| "js_add PosInfinity y = PosInfinity"
| "js_add x PosInfinity = PosInfinity"
| "js_add NegInfinity y = NegInfinity"
| "js_add x NegInfinity = NegInfinity"

definition js_sum :: "jsnum list \<Rightarrow> jsnum" where
  "js_sum xs = foldl js_add (Finite 0) xs"

text \<open>
  A property that an object does not carry reads as \<open>undefined\<close> (\<open>None\<close>), which
  converts to NaN when it is divided.
\<close>

definition js_div_val :: "rat option \<Rightarrow> rat option \<Rightarrow> jsnum" where
  "js_div_val a b =
     (case a of None \<Rightarrow> NaN
      | Some x \<Rightarrow> (case b of None \<Rightarrow> NaN | Some y \<Rightarrow> js_div x y))"

section \<open>Data model (types)\<close>

text \<open>Instants are milliseconds since the epoch, as \<open>Date.getTime()\<close> returns them.\<close>

type_synonym instant = int

record CoinGeckoTicker =
  base :: string
  target :: string
  market_name :: string
  volume :: rat
  converted_volume_usd :: rat
  ticker_trust_score :: "string option"
  is_anomaly :: bool
  is_stale :: bool
  ticker_trade_url :: "string option"

record CoinGeckoTickersResponse =
  coin_name :: string
  tickers :: "CoinGeckoTicker list"

record ExchangeVolume =
  name :: string
  volume_usd :: rat
  volume_near :: rat
  trading_pairs :: "string list"
  trust_score :: "string option"
  trade_url :: "string option"

record VolumeDocument =
  timestamp :: instant
  total_volume_usd :: rat
  total_volume_near :: rat
  exchange_count :: nat
  exchanges :: "ExchangeVolume list"

section \<open>Library behaviour the code relies on\<close>

text \<open>
  A JavaScript \<open>Map\<close> iterates in insertion order, and \<open>set\<close> on a present key
  keeps the key's position: an association list with update in place.
\<close>

fun map_set :: "('k \<times> 'v) list \<Rightarrow> 'k \<Rightarrow> 'v \<Rightarrow> ('k \<times> 'v) list" where
  "map_set [] k v = [(k, v)]"
| "map_set ((k', v') # m) k v =
     (if k' = k then (k, v) # m else (k', v') # map_set m k v)"

definition map_get :: "('k \<times> 'v) list \<Rightarrow> 'k \<Rightarrow> 'v option" where
  "map_get m k = map_of m k"

definition map_values :: "('k \<times> 'v) list \<Rightarrow> 'v list" where
  "map_values m = map snd m"

text \<open>
  \<open>Array.prototype.sort\<close> with a comparator is a stable sort: an element moves in
  front of another only when the comparator is positive for the pair in their current
  order. On the finite numbers of the model the comparators used are consistent.
\<close>

fun insert_by :: "('a \<Rightarrow> 'a \<Rightarrow> rat) \<Rightarrow> 'a \<Rightarrow> 'a list \<Rightarrow> 'a list" where
  "insert_by cmp x [] = [x]"
| "insert_by cmp x (y # ys) =
     (if cmp x y \<le> 0 then x # y # ys else y # insert_by cmp x ys)"

definition js_sort :: "('a \<Rightarrow> 'a \<Rightarrow> rat) \<Rightarrow> 'a list \<Rightarrow> 'a list" where
  "js_sort cmp xs = foldr (insert_by cmp) xs []"

text \<open>
  \<open>xs.slice(start, end)\<close>: a negative bound counts from the end, and both are
  clamped to the array.
\<close>

definition slice_index :: "nat \<Rightarrow> int \<Rightarrow> nat" where
  "slice_index len i = (if i < 0 then nat (int len + i) else min (nat i) len)"

definition js_slice :: "'a list \<Rightarrow> int \<Rightarrow> int \<Rightarrow> 'a list" where
  "js_slice xs start end =
     (let s = slice_index (length xs) start; e = slice_index (length xs) end
      in drop s (take e xs))"

section \<open>Ticker aggregation (lib/coingecko.ts, transformVolumeData)\<close>

definition pair_label :: "CoinGeckoTicker \<Rightarrow> string" where
  "pair_label ticker = base ticker @ ''/'' @ target ticker"

text \<open>\<open>ticker.trade_url || undefined\<close>: null and the empty string both give undefined.\<close>

definition url_or_undefined :: "string option \<Rightarrow> string option" where
  "url_or_undefined u = (case u of None \<Rightarrow> None | Some s \<Rightarrow> if s = [] then None else Some s)"

text \<open>One iteration of the loop over \<open>data.tickers\<close>.\<close>

definition add_ticker ::
  "(string \<times> ExchangeVolume) list \<Rightarrow> CoinGeckoTicker \<Rightarrow> (string \<times> ExchangeVolume) list" where
  "add_ticker exchangeMap ticker =
     (if is_anomaly ticker \<or> is_stale ticker then exchangeMap
      else
        let exchangeName = market_name ticker in
        case map_get exchangeMap exchangeName of
          Some existing \<Rightarrow>
            map_set exchangeMap exchangeName
              (existing\<lparr>
                 volume_usd := volume_usd existing + converted_volume_usd ticker,
                 volume_near := volume_near existing + volume ticker,
                 trading_pairs :=
                   (if pair_label ticker \<in> set (trading_pairs existing)
                    then trading_pairs existing
                    else trading_pairs existing @ [pair_label ticker])\<rparr>)
        | None \<Rightarrow>
            map_set exchangeMap exchangeName
              \<lparr>name = exchangeName,
               volume_usd = converted_volume_usd ticker,
               volume_near = volume ticker,
               trading_pairs = [pair_label ticker],
               trust_score = ticker_trust_score ticker,
               trade_url = url_or_undefined (ticker_trade_url ticker)\<rparr>)"

definition exchange_buckets :: "CoinGeckoTicker list \<Rightarrow> (string \<times> ExchangeVolume) list" where
  "exchange_buckets ts = foldl add_ticker [] ts"

definition by_volume_desc :: "ExchangeVolume \<Rightarrow> ExchangeVolume \<Rightarrow> rat" where
  "by_volume_desc a b = volume_usd b - volume_usd a"

definition transformVolumeData :: "CoinGeckoTickersResponse \<Rightarrow> instant \<Rightarrow> VolumeDocument" where
  "transformVolumeData data now =
     (let exchangeMap = exchange_buckets (tickers data);
          sorted_exchanges = js_sort by_volume_desc (map_values exchangeMap);
          totalVolumeUsd = foldl (\<lambda>sum e. sum + volume_usd e) 0 sorted_exchanges;
          totalVolumeNear = foldl (\<lambda>sum e. sum + volume_near e) 0 sorted_exchanges
      in \<lparr>timestamp = now,
          total_volume_usd = totalVolumeUsd,
          total_volume_near = totalVolumeNear,
          exchange_count = length sorted_exchanges,
          exchanges = js_slice sorted_exchanges 0 20\<rparr>)"

section \<open>Percentages (lib/utils.ts)\<close>

definition calculatePercentage :: "rat \<Rightarrow> rat \<Rightarrow> jsnum" where
  "calculatePercentage v tot = (if tot = 0 then Finite 0 else js_mul (js_div v tot) 100)"

section \<open>The time-series store\<close>

text \<open>
  The store is a MongoDB collection, reached through the driver (not part of the
  repository). A collection is modelled as the list of its documents; \<open>find\<close> with a
  filter and a sort on the timestamp returns the matching documents in that order, and
  \<open>findOne\<close> the first of them.
\<close>

type_synonym volumes_collection = "VolumeDocument list"

definition find_sorted_asc :: "(VolumeDocument \<Rightarrow> bool) \<Rightarrow> volumes_collection \<Rightarrow> VolumeDocument list" where
  "find_sorted_asc p coll = sort_key timestamp (filter p coll)"

definition find_sorted_desc :: "(VolumeDocument \<Rightarrow> bool) \<Rightarrow> volumes_collection \<Rightarrow> VolumeDocument list" where
  "find_sorted_desc p coll = sort_key (\<lambda>d. - timestamp d) (filter p coll)"

definition findOne :: "VolumeDocument list \<Rightarrow> VolumeDocument option" where
  "findOne docs = (case docs of [] \<Rightarrow> None | d # _ \<Rightarrow> Some d)"

datatype api_error = ApiError nat string

section \<open>Volumes query (app/api/volumes/route.ts)\<close>

record ExchangePieData =
  pie_name :: string
  pie_value :: rat
  percentage :: jsnum
  color :: "string option"

record VolumesApiResponse =
  resp_total_volume_usd :: rat
  resp_total_volume_near :: rat
  volume_change_24h :: jsnum
  resp_exchange_count :: nat
  resp_exchanges :: "ExchangeVolume list"
  distribution :: "ExchangePieData list"
  lastUpdated :: instant

definition MAX_DISPLAY_EXCHANGES :: nat where
  "MAX_DISPLAY_EXCHANGES = 10"

definition PIE_COLORS :: "string list" where
  "PIE_COLORS = [''#58a6ff'', ''#3fb950'', ''#f85149'', ''#a371f7'', ''#db61a2'',
                 ''#f0883e'', ''#8b949e'', ''#7ee787'', ''#79c0ff'', ''#d2a8ff'']"

text \<open>\<open>xs[i]\<close> is undefined past the end of the array.\<close>

definition js_index :: "'a list \<Rightarrow> nat \<Rightarrow> 'a option" where
  "js_index xs i = (if i < length xs then Some (xs ! i) else None)"

definition volume_change :: "VolumeDocument \<Rightarrow> VolumeDocument option \<Rightarrow> jsnum" where
  "volume_change latestVolume oldestVolume =
     (case oldestVolume of
        None \<Rightarrow> Finite 0
      | Some oldest \<Rightarrow>
          if total_volume_usd oldest \<noteq> 0 then
            let oldVolume = total_volume_usd oldest;
                newVolume = total_volume_usd latestVolume
            in js_mul (js_div (newVolume - oldVolume) oldVolume) 100
          else Finite 0)"

definition build_distribution :: "VolumeDocument \<Rightarrow> ExchangePieData list" where
  "build_distribution latestVolume =
     (let shown =
            map (\<lambda>(index, exchange).
                   \<lparr>pie_name = name exchange,
                    pie_value = volume_usd exchange,
                    percentage = calculatePercentage (volume_usd exchange)
                                   (total_volume_usd latestVolume),
                    color = js_index PIE_COLORS index\<rparr>)
              (enumerate 0 (js_slice (exchanges latestVolume) 0 (int MAX_DISPLAY_EXCHANGES)))
      in if length (exchanges latestVolume) > MAX_DISPLAY_EXCHANGES then
           let othersVolume =
                 foldl (\<lambda>sum e. sum + volume_usd e) 0
                   (js_slice (exchanges latestVolume) (int MAX_DISPLAY_EXCHANGES)
                      (int (length (exchanges latestVolume))))
           in shown @
              [\<lparr>pie_name = ''Others'',
                pie_value = othersVolume,
                percentage = calculatePercentage othersVolume (total_volume_usd latestVolume),
                color = Some ''#484f58''\<rparr>]
         else shown)"

definition GET_volumes :: "volumes_collection \<Rightarrow> instant \<Rightarrow> api_error + VolumesApiResponse" where
  "GET_volumes coll now =
     (case findOne (find_sorted_desc (\<lambda>d. True) coll) of
        None \<Rightarrow> Inl (ApiError 404 ''No volume data available'')
      | Some latestVolume \<Rightarrow>
          let twentyFourHoursAgo = now - 24 * 60 * 60 * 1000;
              oldestVolume =
                findOne (find_sorted_asc (\<lambda>d. twentyFourHoursAgo \<le> timestamp d) coll)
          in Inr \<lparr>resp_total_volume_usd = total_volume_usd latestVolume,
                  resp_total_volume_near = total_volume_near latestVolume,
                  volume_change_24h = volume_change latestVolume oldestVolume,
                  resp_exchange_count = exchange_count latestVolume,
                  resp_exchanges = exchanges latestVolume,
                  distribution = build_distribution latestVolume,
                  lastUpdated = timestamp latestVolume\<rparr>)"

text \<open>
  The percent change as the specification words it, evaluated the way JavaScript
  evaluates the formula when nothing guards the division.
\<close>

definition spec_percent_change :: "rat \<Rightarrow> rat \<Rightarrow> jsnum" where
  "spec_percent_change latest_total earliest_total =
     js_mul (js_div (latest_total - earliest_total) earliest_total) 100"

section \<open>Exchange volume history query (app/api/volumes/history/exchanges/route.ts)\<close>

record SeriesPoint =
  point_time :: int
  point_value :: rat

record ExchangeTimeSeries =
  series_name :: string
  series_color :: "string option"
  series_data :: "SeriesPoint list"

record ExchangeVolumeHistoryResponse =
  history_exchanges :: "ExchangeTimeSeries list"
  history_timestamps :: "int list"
  history_lastUpdated :: instant

definition EXCHANGE_COLORS :: "string list" where
  "EXCHANGE_COLORS = [''#58a6ff'', ''#3fb950'', ''#f0883e'', ''#a371f7'',
                      ''#f85149'', ''#8b949e'', ''#79c0ff'', ''#7ee787'']"

definition isValidTimeRange :: "string \<Rightarrow> bool" where
  "isValidTimeRange v = (v \<in> set [''1h'', ''24h'', ''7d'', ''30d''])"

definition getTimeRangeStart :: "string \<Rightarrow> instant \<Rightarrow> instant" where
  "getTimeRangeStart rng now =
     (if rng = ''1h'' then now - 60 * 60 * 1000
      else if rng = ''24h'' then now - 24 * 60 * 60 * 1000
      else if rng = ''7d'' then now - 7 * 24 * 60 * 60 * 1000
      else if rng = ''30d'' then now - 30 * 24 * 60 * 60 * 1000
      else now - 24 * 60 * 60 * 1000)"

text \<open>\<open>m.get(k) || 0\<close>: a missing key and a stored zero both read as 0.\<close>

definition or_zero :: "rat option \<Rightarrow> rat" where
  "or_zero v = (case v of None \<Rightarrow> 0 | Some x \<Rightarrow> if x = 0 then 0 else x)"

text \<open>\<open>s || d\<close> on an optional string: null and the empty string give the default.\<close>

definition or_default :: "string option \<Rightarrow> string \<Rightarrow> string" where
  "or_default v d = (case v of None \<Rightarrow> d | Some s \<Rightarrow> if s = [] then d else s)"

text \<open>
  \<open>[...new Set(xs)]\<close>: the elements in the order of their first occurrence.
\<close>

fun set_insert_all :: "'a list \<Rightarrow> 'a list \<Rightarrow> 'a list" where
  "set_insert_all acc [] = acc"
| "set_insert_all acc (x # xs) = set_insert_all (if x \<in> set acc then acc else acc @ [x]) xs"

definition js_unique :: "'a list \<Rightarrow> 'a list" where
  "js_unique xs = set_insert_all [] xs"

text \<open>
  \<open>Math.min(parseInt(s), 8)\<close>, with the result of \<open>parseInt\<close> given (\<open>None\<close> is
  NaN), and \<open>xs.slice(0, limit)\<close>, where a NaN bound reads as 0.
\<close>

definition min_limit :: "int option \<Rightarrow> int option" where
  "min_limit parsed = (case parsed of None \<Rightarrow> None | Some n \<Rightarrow> Some (min n 8))"

definition slice_to :: "'a list \<Rightarrow> int option \<Rightarrow> 'a list" where
  "slice_to xs limit = (case limit of None \<Rightarrow> js_slice xs 0 0 | Some e \<Rightarrow> js_slice xs 0 e)"

definition add_exchange_total :: "(string \<times> rat) list \<Rightarrow> ExchangeVolume \<Rightarrow> (string \<times> rat) list" where
  "add_exchange_total exchangeTotals exchange =
     (let current = or_zero (map_get exchangeTotals (name exchange))
      in map_set exchangeTotals (name exchange) (current + volume_usd exchange))"

definition exchange_totals :: "VolumeDocument list \<Rightarrow> (string \<times> rat) list" where
  "exchange_totals docs =
     foldl (\<lambda>totals doc. foldl add_exchange_total totals (exchanges doc)) [] docs"

definition by_total_desc :: "string \<times> rat \<Rightarrow> string \<times> rat \<Rightarrow> rat" where
  "by_total_desc a b = snd b - snd a"

definition top_exchanges :: "VolumeDocument list \<Rightarrow> int option \<Rightarrow> string list" where
  "top_exchanges docs limit =
     map fst (slice_to (js_sort by_total_desc (exchange_totals docs)) limit)"

definition unix_seconds :: "VolumeDocument \<Rightarrow> int" where
  "unix_seconds doc = timestamp doc div 1000"

definition volume_map :: "VolumeDocument \<Rightarrow> (string \<times> rat) list" where
  "volume_map doc = foldl (\<lambda>m exchange. map_set m (name exchange) (volume_usd exchange)) [] (exchanges doc)"

definition series_point :: "VolumeDocument \<Rightarrow> string \<Rightarrow> SeriesPoint" where
  "series_point doc nm =
     \<lparr>point_time = unix_seconds doc, point_value = or_zero (map_get (volume_map doc) nm)\<rparr>"

text \<open>
  \<open>exchangeData.get(name)!.push(point)\<close>. Every name pushed to was entered by the
  initialisation loop over the same list, so the lookup does not miss.
\<close>

definition push_point ::
  "VolumeDocument \<Rightarrow> (string \<times> SeriesPoint list) list \<Rightarrow> string \<Rightarrow> (string \<times> SeriesPoint list) list" where
  "push_point doc exchangeData nm =
     (case map_get exchangeData nm of
        Some data \<Rightarrow> map_set exchangeData nm (data @ [series_point doc nm])
      | None \<Rightarrow> exchangeData)"

definition process_doc ::
  "string list \<Rightarrow> int list \<times> (string \<times> SeriesPoint list) list \<Rightarrow> VolumeDocument
     \<Rightarrow> int list \<times> (string \<times> SeriesPoint list) list" where
  "process_doc topExchanges st doc =
     (fst st @ [unix_seconds doc], foldl (push_point doc) (snd st) topExchanges)"

definition init_exchange_data :: "string list \<Rightarrow> (string \<times> SeriesPoint list) list" where
  "init_exchange_data topExchanges = foldl (\<lambda>m nm. map_set m nm []) [] topExchanges"

definition build_series ::
  "string list \<Rightarrow> VolumeDocument list \<Rightarrow> int list \<times> (string \<times> SeriesPoint list) list" where
  "build_series topExchanges docs =
     foldl (process_doc topExchanges) ([], init_exchange_data topExchanges) docs"

definition snapshots_in_window :: "volumes_collection \<Rightarrow> instant \<Rightarrow> VolumeDocument list" where
  "snapshots_in_window coll startDate = find_sorted_asc (\<lambda>d. startDate \<le> timestamp d) coll"

definition GET_exchange_history ::
  "volumes_collection \<Rightarrow> instant \<Rightarrow> string option \<Rightarrow> int option
     \<Rightarrow> api_error + ExchangeVolumeHistoryResponse" where
  "GET_exchange_history coll now range_param parsed_limit =
     (let rng = or_default range_param ''24h'';
          limit = min_limit parsed_limit
      in if \<not> isValidTimeRange rng
         then Inl (ApiError 400 ''Invalid time range. Use: 1h, 24h, 7d, or 30d'')
         else
           let startDate = getTimeRangeStart rng now;
               historicalVolumes = snapshots_in_window coll startDate
           in if historicalVolumes = []
              then Inl (ApiError 404 ''No volume history available'')
              else
                let topExchanges = top_exchanges historicalVolumes limit;
                    built = build_series topExchanges historicalVolumes
                in Inr \<lparr>history_exchanges =
                          map (\<lambda>(index, nm).
                                 \<lparr>series_name = nm,
                                  series_color = js_index EXCHANGE_COLORS index,
                                  series_data =
                                    (case map_get (snd built) nm of
                                       Some data \<Rightarrow> data | None \<Rightarrow> [])\<rparr>)
                            (enumerate 0 topExchanges),
                        history_timestamps = js_unique (fst built),
                        history_lastUpdated = timestamp (last historicalVolumes)\<rparr>)"

section \<open>Rate-limited fetch client (lib/coingecko.ts)\<close>

text \<open>
  The module's two counters and the wall clock they are compared with. Time passes only
  while the caller is suspended: a timer of \<open>d\<close> milliseconds advances the clock by
  \<open>d\<close>, a network exchange by the time its response takes.
\<close>

record client_state =
  callCount :: nat
  lastResetTime :: instant
  clock :: instant

definition CALLS_PER_MINUTE :: nat where
  "CALLS_PER_MINUTE = 25"

definition RESET_INTERVAL :: int where
  "RESET_INTERVAL = 60 * 1000"

definition checkRateLimit :: "client_state \<Rightarrow> bool \<times> client_state" where
  "checkRateLimit w =
     (let now = clock w;
          w1 = (if now - lastResetTime w > RESET_INTERVAL
                then w\<lparr>callCount := 0, lastResetTime := now\<rparr> else w)
      in if callCount w1 \<ge> CALLS_PER_MINUTE then (False, w1)
         else (True, w1\<lparr>callCount := callCount w1 + 1\<rparr>))"

definition waitForRateLimit :: "client_state \<Rightarrow> client_state" where
  "waitForRateLimit w =
     (let now = clock w;
          timeUntilReset = RESET_INTERVAL - (now - lastResetTime w)
      in if timeUntilReset > 0 then
           let w1 = w\<lparr>clock := clock w + (timeUntilReset + 100)\<rparr>
           in w1\<lparr>callCount := 0, lastResetTime := clock w1\<rparr>
         else w)"

record 'a http_response =
  status :: nat
  statusText :: string
  json_body :: 'a
  elapsed :: int

datatype fetch_error = ProviderError nat string | TypeError string

definition response_ok :: "'a http_response \<Rightarrow> bool" where
  "response_ok r = (200 \<le> status r \<and> status r \<le> 299)"

text \<open>
  The provider is given as the list of responses it will send, one per request. A call
  that has used them all up is still waiting (\<open>None\<close>); otherwise it returns its outcome,
  the client state it leaves and the responses not consumed.
\<close>

fun fetchFromCoinGecko ::
  "client_state \<Rightarrow> 'a http_response list
     \<Rightarrow> ((fetch_error + 'a) \<times> client_state \<times> 'a http_response list) option" where
  "fetchFromCoinGecko w [] = None"
| "fetchFromCoinGecko w (response # rest) =
     (let checked = checkRateLimit w;
          w1 = (if \<not> fst checked then waitForRateLimit (snd checked) else snd checked);
          w2 = w1\<lparr>clock := clock w1 + elapsed response\<rparr>
      in if \<not> response_ok response then
           if status response = 429 then fetchFromCoinGecko (waitForRateLimit w2) rest
           else Some (Inl (ProviderError (status response) (statusText response)), w2, rest)
         else Some (Inr (json_body response), w2, rest))"

section \<open>Snapshot builder (lib/coingecko.ts)\<close>

text \<open>
  The price response as it arrives: each of the three asset objects may be missing, and
  so may the \<open>usd\<close> price inside one that is there.
\<close>

record UsdPrice =
  usd :: "rat option"

record NearPrice = UsdPrice +
  usd_market_cap :: "rat option"
  usd_24h_vol :: "rat option"
  usd_24h_change :: "rat option"

record CoinGeckoPriceResponse =
  near :: "NearPrice option"
  bitcoin :: "UsdPrice option"
  ethereum :: "UsdPrice option"

record MarketData =
  md_ath :: "rat option"
  md_ath_change_percentage :: "rat option"
  md_ath_date :: "string option"
  md_atl :: "rat option"
  md_atl_change_percentage :: "rat option"
  md_price_change_percentage_7d :: "rat option"
  md_price_change_percentage_30d :: "rat option"
  md_high_24h :: "rat option"
  md_low_24h :: "rat option"
  md_circulating_supply :: "rat option"
  md_total_supply :: "rat option"
  md_fully_diluted_valuation :: "rat option"

record CoinGeckoCoinResponse =
  c_market_cap_rank :: "rat option"
  c_market_data :: "MarketData option"

record PriceDocument =
  price_timestamp :: instant
  near_usd :: "rat option"
  btc_usd :: "rat option"
  eth_usd :: "rat option"
  near_btc :: jsnum
  near_eth :: jsnum
  market_cap :: "rat option"
  volume_24h :: "rat option"
  price_change_24h :: "rat option"
  market_cap_rank :: "rat option"
  ath :: "rat option"
  ath_change_percentage :: "rat option"
  ath_date :: "string option"
  atl :: "rat option"
  atl_change_percentage :: "rat option"
  price_change_7d :: "rat option"
  price_change_30d :: "rat option"
  high_24h :: "rat option"
  low_24h :: "rat option"
  circulating_supply :: "rat option"
  total_supply :: "rat option"
  fully_diluted_valuation :: "rat option"

definition baseData :: "NearPrice \<Rightarrow> UsdPrice \<Rightarrow> UsdPrice \<Rightarrow> instant \<Rightarrow> PriceDocument" where
  "baseData nearObj bitcoinObj ethereumObj now =
     (let nearUsd = usd nearObj;
          btcUsd = usd bitcoinObj;
          ethUsd = usd ethereumObj
      in \<lparr>price_timestamp = now,
          near_usd = nearUsd,
          btc_usd = btcUsd,
          eth_usd = ethUsd,
          near_btc = js_div_val nearUsd btcUsd,
          near_eth = js_div_val nearUsd ethUsd,
          market_cap = usd_market_cap nearObj,
          volume_24h = usd_24h_vol nearObj,
          price_change_24h = usd_24h_change nearObj,
          market_cap_rank = None, ath = None, ath_change_percentage = None,
          ath_date = None, atl = None, atl_change_percentage = None,
          price_change_7d = None, price_change_30d = None, high_24h = None,
          low_24h = None, circulating_supply = None, total_supply = None,
          fully_diluted_valuation = None\<rparr>)"

text \<open>The branch \<open>if (coinData?.market_data)\<close> and what it returns.\<close>

definition add_market_data :: "PriceDocument \<Rightarrow> CoinGeckoCoinResponse option \<Rightarrow> PriceDocument" where
  "add_market_data doc coinData =
     (case (case coinData of None \<Rightarrow> None | Some c \<Rightarrow> c_market_data c) of
        Some md \<Rightarrow>
          doc\<lparr>
            market_cap_rank := (case coinData of None \<Rightarrow> None | Some c \<Rightarrow> c_market_cap_rank c),
            ath := md_ath md,
            ath_change_percentage := md_ath_change_percentage md,
            ath_date := md_ath_date md,
            atl := md_atl md,
            atl_change_percentage := md_atl_change_percentage md,
            price_change_7d := md_price_change_percentage_7d md,
            price_change_30d := md_price_change_percentage_30d md,
            high_24h := md_high_24h md,
            low_24h := md_low_24h md,
            circulating_supply := md_circulating_supply md,
            total_supply := md_total_supply md,
            fully_diluted_valuation := md_fully_diluted_valuation md\<rparr>
      | None \<Rightarrow> doc)"

text \<open>
  The first three statements read \<open>data.near.usd\<close>, \<open>data.bitcoin.usd\<close> and
  \<open>data.ethereum.usd\<close> in this order; reading \<open>usd\<close> of an object that is missing
  throws a TypeError. Nothing else in the function throws.
\<close>

definition transformPriceData ::
  "CoinGeckoPriceResponse \<Rightarrow> CoinGeckoCoinResponse option \<Rightarrow> instant
     \<Rightarrow> fetch_error + PriceDocument" where
  "transformPriceData data coinData now =
     (case near data of
        None \<Rightarrow> Inl (TypeError ''usd'')
      | Some nearObj \<Rightarrow>
          (case bitcoin data of
             None \<Rightarrow> Inl (TypeError ''usd'')
           | Some bitcoinObj \<Rightarrow>
               (case ethereum data of
                  None \<Rightarrow> Inl (TypeError ''usd'')
                | Some ethereumObj \<Rightarrow>
                    Inr (add_market_data (baseData nearObj bitcoinObj ethereumObj now)
                           coinData))))"

text \<open>
  \<open>fetchAllData\<close> awaits its three requests jointly with \<open>Promise.all\<close>, which
  rejects as soon as one of them rejects. The model takes the settled outcome of each
  request; when several fail it reports the first in the array's order. With all three
  settled it builds the price record, which may throw, and then the volume record.
\<close>

definition fetchAllData ::
  "fetch_error + CoinGeckoPriceResponse \<Rightarrow> fetch_error + CoinGeckoCoinResponse
     \<Rightarrow> fetch_error + CoinGeckoTickersResponse \<Rightarrow> instant
     \<Rightarrow> fetch_error + PriceDocument \<times> VolumeDocument" where
  "fetchAllData priceResult coinResult tickerResult now =
     (case priceResult of
        Inl e \<Rightarrow> Inl e
      | Inr priceData \<Rightarrow>
          (case coinResult of
             Inl e \<Rightarrow> Inl e
           | Inr coinData \<Rightarrow>
               (case tickerResult of
                  Inl e \<Rightarrow> Inl e
                | Inr tickerData \<Rightarrow>
                    (case transformPriceData priceData (Some coinData) now of
                       Inl e \<Rightarrow> Inl e
                     | Inr prices \<Rightarrow> Inr (prices, transformVolumeData tickerData now)))))"

section \<open>Auxiliary notions and sample data\<close>

definition unflagged :: "CoinGeckoTicker \<Rightarrow> bool" where
  "unflagged t = (\<not> is_anomaly t \<and> \<not> is_stale t)"

definition sample_ticker :: "string \<Rightarrow> rat \<Rightarrow> CoinGeckoTicker" where
  "sample_ticker exchange v =
     \<lparr>base = ''NEAR'', target = ''USDT'', market_name = exchange, volume = 2 * v,
      converted_volume_usd = v, ticker_trust_score = Some ''green'', is_anomaly = False,
      is_stale = False, ticker_trade_url = None\<rparr>"

text \<open>Twenty-five exchanges with the distinct volumes 1, 2, ..., 25, one ticker each.\<close>

definition tickers_25 :: "CoinGeckoTicker list" where
  "tickers_25 = map (\<lambda>i. sample_ticker (replicate i CHR ''x'') (of_nat i)) [1..<26]"

definition response_25 :: CoinGeckoTickersResponse where
  "response_25 = \<lparr>coin_name = ''NEAR Protocol'', tickers = tickers_25\<rparr>"

text \<open>Three tickers, two for exchange X (one of them anomalous) and one for Y.\<close>

definition response_3 :: CoinGeckoTickersResponse where
  "response_3 =
     \<lparr>coin_name = ''NEAR Protocol'',
      tickers = [sample_ticker ''X'' 7,
                 (sample_ticker ''X'' 100)\<lparr>is_anomaly := True\<rparr>,
                 sample_ticker ''Y'' 9]\<rparr>"

text \<open>One exchange whose only ticker reports no volume.\<close>

definition response_zero :: CoinGeckoTickersResponse where
  "response_zero = \<lparr>coin_name = ''NEAR Protocol'', tickers = [sample_ticker ''X'' 0]\<rparr>"

text \<open>
  A stored snapshot with one exchange, taken at the given instant with the given total,
  and two stores read at \<open>now_c\<close>: each holds a snapshot 10 minutes old with total 5 and
  one 23 hours old, with total 4 in the first store and total 0 in the second.
\<close>

definition sample_snapshot :: "instant \<Rightarrow> rat \<Rightarrow> VolumeDocument" where
  "sample_snapshot t v =
     transformVolumeData \<lparr>coin_name = ''NEAR Protocol'', tickers = [sample_ticker ''X'' v]\<rparr> t"

definition now_c :: instant where
  "now_c = 1700000000000"

definition store_c :: volumes_collection where
  "store_c = [sample_snapshot (now_c - 23 * 60 * 60 * 1000) 4,
              sample_snapshot (now_c - 10 * 60 * 1000) 5]"

definition store_zero :: volumes_collection where
  "store_zero = [sample_snapshot (now_c - 23 * 60 * 60 * 1000) 0,
                 sample_snapshot (now_c - 10 * 60 * 1000) 5]"

text \<open>
  Price responses: a complete one, one with a bitcoin price of exactly 0, one with NEAR
  and ethereum prices of 0, one without the bitcoin object and one whose reference
  objects carry no usd value; and an enrichment.
\<close>

definition near_sample :: NearPrice where
  "near_sample =
     \<lparr>usd = Some 5, usd_market_cap = Some 6000000000, usd_24h_vol = Some 300000000,
      usd_24h_change = Some (- 3 / 2)\<rparr>"

definition prices_sample :: CoinGeckoPriceResponse where
  "prices_sample =
     \<lparr>near = Some near_sample, bitcoin = Some \<lparr>usd = Some 100000\<rparr>,
      ethereum = Some \<lparr>usd = Some 4000\<rparr>\<rparr>"

definition prices_btc_zero :: CoinGeckoPriceResponse where
  "prices_btc_zero = prices_sample\<lparr>bitcoin := Some \<lparr>usd = Some 0\<rparr>\<rparr>"

definition prices_all_zero :: CoinGeckoPriceResponse where
  "prices_all_zero =
     \<lparr>near = Some (near_sample\<lparr>usd := Some 0\<rparr>), bitcoin = Some \<lparr>usd = Some 100000\<rparr>,
      ethereum = Some \<lparr>usd = Some 0\<rparr>\<rparr>"

definition prices_without_bitcoin :: CoinGeckoPriceResponse where
  "prices_without_bitcoin = prices_sample\<lparr>bitcoin := None\<rparr>"

definition prices_usd_missing :: CoinGeckoPriceResponse where
  "prices_usd_missing =
     \<lparr>near = Some near_sample, bitcoin = Some \<lparr>usd = None\<rparr>, ethereum = Some \<lparr>usd = None\<rparr>\<rparr>"

definition coin_sample :: CoinGeckoCoinResponse where
  "coin_sample =
     \<lparr>c_market_cap_rank = Some 30,
      c_market_data = Some
        \<lparr>md_ath = Some 20, md_ath_change_percentage = Some (- 75),
         md_ath_date = Some ''2022-01-16T22:09:45.873Z'', md_atl = Some (1 / 2),
         md_atl_change_percentage = Some 900, md_price_change_percentage_7d = Some 2,
         md_price_change_percentage_30d = Some (- 8), md_high_24h = Some (11 / 2),
         md_low_24h = Some (9 / 2), md_circulating_supply = Some 1200000000,
         md_total_supply = Some 1250000000, md_fully_diluted_valuation = Some 6250000000\<rparr>\<rparr>"


text \<open>
  Client states one second into a window, with the counter saturated and with three
  calls counted, and the responses of a provider.
\<close>

definition saturated_client :: client_state where
  "saturated_client = \<lparr>callCount = 25, lastResetTime = 0, clock = 1000\<rparr>"

definition fresh_client :: client_state where
  "fresh_client = \<lparr>callCount = 3, lastResetTime = 0, clock = 1000\<rparr>"

definition ok_response :: "string http_response" where
  "ok_response = \<lparr>status = 200, statusText = ''OK'', json_body = ''{}'', elapsed = 50\<rparr>"

definition throttled_response :: "string http_response" where
  "throttled_response =
     \<lparr>status = 429, statusText = ''Too Many Requests'', json_body = [], elapsed = 50\<rparr>"


text \<open>
  A store of two snapshots inside the last hour: the older one lists the exchanges X and
  Y, the newer one only X.
\<close>

definition store_h :: volumes_collection where
  "store_h = [sample_snapshot (now_c - 10 * 60 * 1000) 5,
              transformVolumeData response_3 (now_c - 25 * 60 * 1000)]"

definition history_h :: ExchangeVolumeHistoryResponse where
  "history_h =
     \<lparr>history_exchanges =
        [\<lparr>series_name = ''X'', series_color = Some ''#58a6ff'',
          series_data = [\<lparr>point_time = 1699998500, point_value = 7\<rparr>,
                         \<lparr>point_time = 1699999400, point_value = 5\<rparr>]\<rparr>,
         \<lparr>series_name = ''Y'', series_color = Some ''#3fb950'',
          series_data = [\<lparr>point_time = 1699998500, point_value = 9\<rparr>,
                         \<lparr>point_time = 1699999400, point_value = 0\<rparr>]\<rparr>],
      history_timestamps = [1699998500, 1699999400],
      history_lastUpdated = 1699999400000\<rparr>"

text \<open>
  What an exchange's bucket holds apart from the fields taken from its first ticker, and
  what the tickers of one exchange add up to.
\<close>

definition bucket_summary :: "ExchangeVolume \<Rightarrow> string \<times> rat \<times> rat \<times> string set" where
  "bucket_summary e = (name e, volume_usd e, volume_near e, set (trading_pairs e))"

definition tickers_of :: "CoinGeckoTicker list \<Rightarrow> string \<Rightarrow> CoinGeckoTicker list" where
  "tickers_of ts k = filter (\<lambda>t. unflagged t \<and> market_name t = k) ts"

definition aggregate_of ::
  "CoinGeckoTicker list \<Rightarrow> string \<Rightarrow> string \<times> rat \<times> rat \<times> string set" where
  "aggregate_of ts k =
     (k, sum_list (map converted_volume_usd (tickers_of ts k)),
         sum_list (map volume (tickers_of ts k)),
         pair_label ` set (tickers_of ts k))"

text \<open>
  Reorderings: the three tickers of \<open>response_3\<close> reversed; two tickers of one exchange
  with different trust indicators, in both orders; two exchanges of equal volume, in both
  orders.
\<close>

definition response_3_reversed :: CoinGeckoTickersResponse where
  "response_3_reversed = response_3\<lparr>tickers := rev (tickers response_3)\<rparr>"

definition ticker_green :: CoinGeckoTicker where
  "ticker_green = sample_ticker ''X'' 7"

definition ticker_red :: CoinGeckoTicker where
  "ticker_red = (sample_ticker ''X'' 3)\<lparr>ticker_trust_score := Some ''red''\<rparr>"

definition response_green_red :: CoinGeckoTickersResponse where
  "response_green_red = \<lparr>coin_name = ''NEAR Protocol'', tickers = [ticker_green, ticker_red]\<rparr>"

definition response_red_green :: CoinGeckoTickersResponse where
  "response_red_green = \<lparr>coin_name = ''NEAR Protocol'', tickers = [ticker_red, ticker_green]\<rparr>"

definition response_tie :: CoinGeckoTickersResponse where
  "response_tie =
     \<lparr>coin_name = ''NEAR Protocol'', tickers = [sample_ticker ''X'' 5, sample_ticker ''Y'' 5]\<rparr>"

definition response_tie_swapped :: CoinGeckoTickersResponse where
  "response_tie_swapped =
     \<lparr>coin_name = ''NEAR Protocol'', tickers = [sample_ticker ''Y'' 5, sample_ticker ''X'' 5]\<rparr>"

section \<open>Properties of the library models\<close>

lemma foldl_add_sum: "foldl (\<lambda>sum e. sum + f e) (a::rat) xs = a + sum_list (map f xs)"
  by (induction xs arbitrary: a) (simp_all add: add.assoc)

lemma js_slice_take: "js_slice xs 0 (int n) = take n xs"
  by (cases "n \<le> length xs") (simp_all add: js_slice_def slice_index_def Let_def min_def)

lemma js_slice_drop: "js_slice xs (int n) (int (length xs)) = drop n xs"
  by (cases "n \<le> length xs") (simp_all add: js_slice_def slice_index_def Let_def min_def)

lemma map_fst_map_set:
  "map fst (map_set m k v) = (if k \<in> set (map fst m) then map fst m else map fst m @ [k])"
  by (induction m) (auto simp: rev_image_eqI)

lemma map_get_None_iff: "map_get m k = None \<longleftrightarrow> k \<notin> set (map fst m)"
  by (simp add: map_get_def map_of_eq_None_iff)

lemma mset_insert_by: "mset (insert_by cmp x xs) = add_mset x (mset xs)"
  by (induction xs) auto

lemma set_insert_by: "set (insert_by cmp x xs) = insert x (set xs)"
  by (induction xs) auto

lemma mset_js_sort: "mset (js_sort cmp xs) = mset xs"
  by (induction xs) (auto simp: js_sort_def mset_insert_by)

lemma length_js_sort: "length (js_sort cmp xs) = length xs"
  using mset_js_sort [of cmp xs] by (metis size_mset)

lemma set_js_sort: "set (js_sort cmp xs) = set xs"
  using mset_js_sort [of cmp xs] by (metis set_mset_mset)

lemma sum_list_js_sort: "sum_list (map f (js_sort cmp xs)) = (sum_list (map f xs) :: rat)"
proof -
  have "sum_mset (image_mset f (mset (js_sort cmp xs))) = sum_mset (image_mset f (mset xs))"
    by (simp only: mset_js_sort)
  then show ?thesis
    by (metis mset_map sum_mset_sum_list)
qed

lemma sorted_wrt_take: "sorted_wrt P xs \<Longrightarrow> sorted_wrt P (take n xs)"
  by (metis append_take_drop_id sorted_wrt_append)

lemma sum_map_set_Some:
  "map_get m k = Some old \<Longrightarrow>
   sum_list (map (\<lambda>p. f (snd p)) (map_set m k v)) =
   sum_list (map (\<lambda>p. f (snd p)) m) - f old + (f v :: rat)"
  by (induction m) (auto simp: map_get_def)

lemma sum_map_set_None:
  "map_get m k = None \<Longrightarrow>
   sum_list (map (\<lambda>p. f (snd p)) (map_set m k v)) =
   sum_list (map (\<lambda>p. f (snd p)) m) + (f v :: rat)"
  by (induction m) (auto simp: map_get_def split: if_splits)

lemma map_get_map_set: "map_get (map_set m k v) k' = (if k' = k then Some v else map_get m k')"
  by (induction m) (auto simp: map_get_def)

lemma keys_map_set: "fst ` set (map_set m k v) = insert k (fst ` set m)"
  using map_fst_map_set [of m k v, THEN arg_cong, of set] by (auto split: if_splits)

lemma distinct_keys_map_set: "distinct (map fst m) \<Longrightarrow> distinct (map fst (map_set m k v))"
  by (simp add: map_fst_map_set)

lemma distinct_keys_js_sort: "distinct (map fst xs) \<Longrightarrow> distinct (map fst (js_sort cmp xs))"
proof -
  assume d: "distinct (map fst xs)"
  have "mset (map fst (js_sort cmp xs)) = mset (map fst xs)"
    by (simp add: mset_js_sort)
  then show ?thesis
    using d by (metis mset_eq_imp_distinct_iff)
qed

lemma distinct_keys_js_slice: "distinct (map fst xs) \<Longrightarrow> distinct (map fst (js_slice xs a b))"
  by (simp add: js_slice_def Let_def drop_map [symmetric] take_map [symmetric] del: drop_map take_map)

lemma set_insert_all_props:
  fixes acc :: "int list"
  assumes "sorted (acc @ xs)" "distinct acc"
  shows "sorted (set_insert_all acc xs) \<and> distinct (set_insert_all acc xs)
         \<and> set (set_insert_all acc xs) = set acc \<union> set xs"
  using assms
proof (induction xs arbitrary: acc)
  case Nil
  then show ?case by simp
next
  case (Cons x xs)
  let ?acc' = "if x \<in> set acc then acc else acc @ [x]"
  have s: "sorted (?acc' @ xs)"
    using Cons.prems(1) by (auto simp: sorted_append)
  have d: "distinct ?acc'"
    using Cons.prems(2) by auto
  show ?case
    using Cons.IH [OF s d] by auto
qed

lemma js_unique_sorted:
  fixes xs :: "int list"
  assumes "sorted xs"
  shows "sorted (js_unique xs)" "distinct (js_unique xs)" "set (js_unique xs) = set xs"
  using set_insert_all_props [of "[]" xs] assms by (simp_all add: js_unique_def)

section \<open>Properties of the ticker aggregation\<close>

subsection \<open>The exchanges found\<close>

lemma map_fst_add_ticker:
  "map fst (add_ticker m t) =
     (if unflagged t \<and> market_name t \<notin> set (map fst m) then map fst m @ [market_name t]
      else map fst m)"
proof (cases "map_get m (market_name t)")
  case None
  then show ?thesis
    using map_get_None_iff [of m "market_name t"]
    by (simp add: add_ticker_def unflagged_def map_fst_map_set Let_def)
next
  case (Some e)
  then have "market_name t \<in> set (map fst m)"
    using map_get_None_iff [of m "market_name t"] by auto
  with Some show ?thesis
    by (simp add: add_ticker_def unflagged_def map_fst_map_set Let_def)
qed

lemma keys_foldl_add_ticker:
  "distinct (map fst m) \<Longrightarrow>
   distinct (map fst (foldl add_ticker m ts)) \<and>
   set (map fst (foldl add_ticker m ts)) =
     set (map fst m) \<union> market_name ` {t \<in> set ts. unflagged t}"
proof (induction ts arbitrary: m)
  case Nil
  then show ?case by simp
next
  case (Cons t ts)
  have d: "distinct (map fst (add_ticker m t))"
    using Cons.prems by (simp add: map_fst_add_ticker)
  have s: "set (map fst (add_ticker m t)) =
           set (map fst m) \<union> (if unflagged t then {market_name t} else {})"
    by (auto simp: map_fst_add_ticker)
  show ?case
    using Cons.IH [OF d] s by auto
qed

lemma keys_exchange_buckets:
  "distinct (map fst (exchange_buckets ts))"
  "set (map fst (exchange_buckets ts)) = market_name ` {t \<in> set ts. unflagged t}"
  using keys_foldl_add_ticker [of "[]" ts] by (simp_all add: exchange_buckets_def)

lemma length_exchange_buckets:
  "length (exchange_buckets ts) = card (market_name ` {t \<in> set ts. unflagged t})"
proof -
  have "length (exchange_buckets ts) = length (map fst (exchange_buckets ts))" by simp
  also have "\<dots> = card (set (map fst (exchange_buckets ts)))"
    using keys_exchange_buckets(1) [of ts] by (simp only: distinct_card)
  finally show ?thesis by (simp only: keys_exchange_buckets(2))
qed

subsection \<open>Order of the stored list\<close>

lemma sorted_insert_by_volume:
  "sorted_wrt (\<lambda>a b. volume_usd b \<le> volume_usd a) xs \<Longrightarrow>
   sorted_wrt (\<lambda>a b. volume_usd b \<le> volume_usd a) (insert_by by_volume_desc x xs)"
proof (induction xs)
  case Nil
  then show ?case by simp
next
  case (Cons y ys)
  show ?case
    using Cons by (auto simp: by_volume_desc_def set_insert_by)
qed

lemma sorted_js_sort_volume:
  "sorted_wrt (\<lambda>a b. volume_usd b \<le> volume_usd a) (js_sort by_volume_desc xs)"
proof (induction xs)
  case Nil
  then show ?case by (simp add: js_sort_def)
next
  case (Cons x xs)
  then show ?case
    using sorted_insert_by_volume [of "js_sort by_volume_desc xs" x]
    by (simp add: js_sort_def)
qed

text \<open>
  Claim C6. In the VolumeSnapshot that transformVolumeData produces, exchange_count is
  the number of distinct exchanges among the tickers that are neither anomalous nor
  stale, counted before the truncation to 20; the stored list has
  \<open>min 20 exchange_count\<close> entries, so it is never longer than exchange_count and is as
  long exactly when at most 20 distinct exchanges were found; and the stored entries are
  in descending order of volume_usd.
\<close>

theorem exchange_count_before_truncation:
  "exchange_count (transformVolumeData data now) =
      card (market_name ` {t \<in> set (tickers data). \<not> is_anomaly t \<and> \<not> is_stale t})
   \<and> length (exchanges (transformVolumeData data now)) =
      min 20 (exchange_count (transformVolumeData data now))
   \<and> length (exchanges (transformVolumeData data now)) \<le>
      exchange_count (transformVolumeData data now)
   \<and> (exchange_count (transformVolumeData data now) =
        length (exchanges (transformVolumeData data now))
      \<longleftrightarrow> card (market_name ` {t \<in> set (tickers data). \<not> is_anomaly t \<and> \<not> is_stale t}) \<le> 20)
   \<and> sorted_wrt (\<lambda>a b. volume_usd b \<le> volume_usd a) (exchanges (transformVolumeData data now))"
proof -
  let ?out = "transformVolumeData data now"
  let ?all = "js_sort by_volume_desc (map_values (exchange_buckets (tickers data)))"
  have cnt: "exchange_count ?out = length ?all"
    by (simp add: transformVolumeData_def Let_def)
  have ex: "exchanges ?out = take 20 ?all"
    using js_slice_take [of ?all 20] by (simp add: transformVolumeData_def Let_def)
  have len: "length ?all =
      card (market_name ` {t \<in> set (tickers data). \<not> is_anomaly t \<and> \<not> is_stale t})"
    using length_exchange_buckets [of "tickers data"]
    by (simp add: length_js_sort map_values_def unflagged_def)
  have srt: "sorted_wrt (\<lambda>a b. volume_usd b \<le> volume_usd a) (exchanges ?out)"
    unfolding ex by (rule sorted_wrt_take) (rule sorted_js_sort_volume)
  have l2: "length (exchanges ?out) = min 20 (exchange_count ?out)"
    unfolding ex cnt by simp
  show ?thesis
    using srt l2 cnt len by auto
qed

theorem exchange_count_before_truncation_witness:
  "exchange_count (transformVolumeData response_25 0) = 25
   \<and> length (exchanges (transformVolumeData response_25 0)) = 20
   \<and> card (market_name ` {t \<in> set (tickers response_25). \<not> is_anomaly t \<and> \<not> is_stale t}) = 25"
proof -
  have c: "exchange_count (transformVolumeData response_25 0) = 25"
    by code_simp
  show ?thesis
    using exchange_count_before_truncation [of response_25 0] c by simp
qed

text \<open>
  Three tickers, two for exchange X of which one is anomalous, and one for exchange Y:
  the snapshot has two exchanges, X with the volume of its valid ticker alone.
\<close>

theorem scenario_three_tickers:
  "exchange_count (transformVolumeData response_3 0) = 2
   \<and> map (\<lambda>e. (name e, volume_usd e)) (exchanges (transformVolumeData response_3 0)) =
       [(''Y'', 9), (''X'', 7)]"
  by code_simp

subsection \<open>Totals\<close>

lemma sum_usd_add_ticker:
  "sum_list (map (\<lambda>p. volume_usd (snd p)) (add_ticker m t)) =
   sum_list (map (\<lambda>p. volume_usd (snd p)) m) +
   (if unflagged t then converted_volume_usd t else 0)"
  by (cases "map_get m (market_name t)")
     (simp_all add: add_ticker_def unflagged_def Let_def sum_map_set_Some sum_map_set_None)

lemma sum_near_add_ticker:
  "sum_list (map (\<lambda>p. volume_near (snd p)) (add_ticker m t)) =
   sum_list (map (\<lambda>p. volume_near (snd p)) m) + (if unflagged t then volume t else 0)"
  by (cases "map_get m (market_name t)")
     (simp_all add: add_ticker_def unflagged_def Let_def sum_map_set_Some sum_map_set_None)

lemma sum_usd_foldl:
  "sum_list (map (\<lambda>p. volume_usd (snd p)) (foldl add_ticker m ts)) =
   sum_list (map (\<lambda>p. volume_usd (snd p)) m) +
   sum_list (map converted_volume_usd (filter unflagged ts))"
  by (induction ts arbitrary: m) (simp_all add: sum_usd_add_ticker)

lemma sum_near_foldl:
  "sum_list (map (\<lambda>p. volume_near (snd p)) (foldl add_ticker m ts)) =
   sum_list (map (\<lambda>p. volume_near (snd p)) m) + sum_list (map volume (filter unflagged ts))"
  by (induction ts arbitrary: m) (simp_all add: sum_near_add_ticker)

lemma total_volume_usd_all_tickers:
  "total_volume_usd (transformVolumeData data now) =
   sum_list (map converted_volume_usd (filter unflagged (tickers data)))"
  using sum_usd_foldl [of "[]" "tickers data"]
  by (simp add: transformVolumeData_def Let_def foldl_add_sum sum_list_js_sort map_values_def
      exchange_buckets_def comp_def)

lemma total_volume_near_all_tickers:
  "total_volume_near (transformVolumeData data now) =
   sum_list (map volume (filter unflagged (tickers data)))"
  using sum_near_foldl [of "[]" "tickers data"]
  by (simp add: transformVolumeData_def Let_def foldl_add_sum sum_list_js_sort map_values_def
      exchange_buckets_def comp_def)

lemma totals_of_short_list:
  "exchange_count (transformVolumeData data now) \<le> 20 \<Longrightarrow>
   total_volume_usd (transformVolumeData data now) =
     sum_list (map volume_usd (exchanges (transformVolumeData data now)))
   \<and> total_volume_near (transformVolumeData data now) =
     sum_list (map volume_near (exchanges (transformVolumeData data now)))"
  using js_slice_take [of "js_sort by_volume_desc (map_values (exchange_buckets (tickers data)))" 20]
  by (simp add: transformVolumeData_def Let_def foldl_add_sum)

text \<open>
  Claim C1, as the code has it. The totals of the VolumeSnapshot are summed over the
  whole sorted list of exchanges, of which the snapshot stores the first 20: so
  total_volume_usd and total_volume_near are the summed converted-USD and raw volumes of
  all tickers that are neither anomalous nor stale. They equal the sums over the stored
  exchanges whenever at most 20 distinct exchanges were found.
\<close>

theorem totals_cover_all_exchanges:
  "total_volume_usd (transformVolumeData data now) =
     sum_list (map volume_usd
       (js_sort by_volume_desc (map_values (exchange_buckets (tickers data)))))
   \<and> total_volume_near (transformVolumeData data now) =
     sum_list (map volume_near
       (js_sort by_volume_desc (map_values (exchange_buckets (tickers data)))))
   \<and> exchanges (transformVolumeData data now) =
     take 20 (js_sort by_volume_desc (map_values (exchange_buckets (tickers data))))
   \<and> total_volume_usd (transformVolumeData data now) =
     sum_list (map converted_volume_usd
       (filter (\<lambda>t. \<not> is_anomaly t \<and> \<not> is_stale t) (tickers data)))
   \<and> total_volume_near (transformVolumeData data now) =
     sum_list (map volume (filter (\<lambda>t. \<not> is_anomaly t \<and> \<not> is_stale t) (tickers data)))
   \<and> (exchange_count (transformVolumeData data now) \<le> 20 \<longrightarrow>
        total_volume_usd (transformVolumeData data now) =
          sum_list (map volume_usd (exchanges (transformVolumeData data now)))
        \<and> total_volume_near (transformVolumeData data now) =
          sum_list (map volume_near (exchanges (transformVolumeData data now))))"
proof -
  let ?all = "js_sort by_volume_desc (map_values (exchange_buckets (tickers data)))"
  have u: "unflagged = (\<lambda>t. \<not> is_anomaly t \<and> \<not> is_stale t)"
    by (rule ext) (simp add: unflagged_def)
  have full: "total_volume_usd (transformVolumeData data now) = sum_list (map volume_usd ?all)"
    "total_volume_near (transformVolumeData data now) = sum_list (map volume_near ?all)"
    by (simp_all add: transformVolumeData_def Let_def foldl_add_sum)
  have stored: "exchanges (transformVolumeData data now) = take 20 ?all"
    using js_slice_take [of ?all 20] by (simp add: transformVolumeData_def Let_def)
  show ?thesis
    using total_volume_usd_all_tickers [of data now] total_volume_near_all_tickers [of data now]
      totals_of_short_list [of data now] full stored
    unfolding u by blast
qed

theorem totals_cover_all_exchanges_witness:
  "exchange_count (transformVolumeData response_3 0) \<le> 20
   \<and> total_volume_usd (transformVolumeData response_3 0) = 16
   \<and> sum_list (map volume_usd (exchanges (transformVolumeData response_3 0))) = 16
   \<and> total_volume_near (transformVolumeData response_3 0) = 32
   \<and> sum_list (map volume_near (exchanges (transformVolumeData response_3 0))) = 32"
proof -
  have h: "exchange_count (transformVolumeData response_3 0) \<le> 20"
    by code_simp
  have v: "total_volume_usd (transformVolumeData response_3 0) = 16"
          "total_volume_near (transformVolumeData response_3 0) = 32"
    by code_simp+
  from totals_cover_all_exchanges [of response_3 0] h
  have "total_volume_usd (transformVolumeData response_3 0) =
          sum_list (map volume_usd (exchanges (transformVolumeData response_3 0)))"
    and "total_volume_near (transformVolumeData response_3 0) =
          sum_list (map volume_near (exchanges (transformVolumeData response_3 0)))"
    by blast+
  with h v show ?thesis by metis
qed

text \<open>
  Claim C1 as stated fails: with 25 exchanges of volumes 1, ..., 25 the stored list holds
  the 20 largest, whose volumes sum to 310, while total_volume_usd is 325.
\<close>

theorem totals_not_of_top20:
  "total_volume_usd (transformVolumeData response_25 0) = 325
   \<and> sum_list (map volume_usd (exchanges (transformVolumeData response_25 0))) = 310
   \<and> length (exchanges (transformVolumeData response_25 0)) = 20"
  by code_simp

section \<open>Properties of the volumes query\<close>

subsection \<open>Distribution percentages\<close>

lemma calculatePercentage_zero: "calculatePercentage v 0 = Finite 0"
  by (simp add: calculatePercentage_def)

lemma calculatePercentage_nonzero:
  "t \<noteq> 0 \<Longrightarrow> calculatePercentage v t = Finite (v / t * 100)"
  by (simp add: calculatePercentage_def js_div_def)

lemma unguarded_division_by_zero: "js_mul (js_div v 0) 100 \<in> {PosInfinity, NegInfinity, NaN}"
  by (simp add: js_div_def)

lemma foldl_js_add_Finite:
  "foldl js_add (Finite a) (map Finite ps) = Finite (a + sum_list ps)"
  by (induction ps arbitrary: a) (simp_all add: add.assoc)

lemma js_sum_Finite: "js_sum (map Finite ps) = Finite (sum_list ps)"
  by (simp add: js_sum_def foldl_js_add_Finite)

lemma percentages_of_distribution:
  "map percentage (build_distribution s) =
     map (\<lambda>e. calculatePercentage (volume_usd e) (total_volume_usd s)) (take 10 (exchanges s)) @
     (if length (exchanges s) > 10
      then [calculatePercentage (sum_list (map volume_usd (drop 10 (exchanges s))))
              (total_volume_usd s)]
      else [])"
proof -
  have sl: "js_slice (exchanges s) 0 10 = take 10 (exchanges s)"
    using js_slice_take [of "exchanges s" 10] by simp
  have dr: "js_slice (exchanges s) 10 (int (length (exchanges s))) = drop 10 (exchanges s)"
    using js_slice_drop [of "exchanges s" 10] by simp
  have en: "map (\<lambda>x. percentage (case x of (index, exchange) \<Rightarrow>
                 \<lparr>pie_name = name exchange, pie_value = volume_usd exchange,
                  percentage = calculatePercentage (volume_usd exchange) (total_volume_usd s),
                  color = js_index PIE_COLORS index\<rparr>)) (enumerate 0 xs)
            = map (\<lambda>e. calculatePercentage (volume_usd e) (total_volume_usd s)) xs" for xs
  proof -
    have "map (\<lambda>x. percentage (case x of (index, exchange) \<Rightarrow>
                 \<lparr>pie_name = name exchange, pie_value = volume_usd exchange,
                  percentage = calculatePercentage (volume_usd exchange) (total_volume_usd s),
                  color = js_index PIE_COLORS index\<rparr>)) (enumerate 0 xs)
        = map ((\<lambda>e. calculatePercentage (volume_usd e) (total_volume_usd s)) \<circ> snd)
            (enumerate 0 xs)"
      by (rule map_cong) (auto simp: case_prod_beta)
    also have "\<dots> = map (\<lambda>e. calculatePercentage (volume_usd e) (total_volume_usd s))
                        (map snd (enumerate 0 xs))"
      by (simp only: map_map)
    finally show ?thesis by (simp only: map_snd_enumerate)
  qed
  show ?thesis
    by (simp add: build_distribution_def Let_def sl dr en foldl_add_sum
        MAX_DISPLAY_EXCHANGES_def comp_def)
qed

lemma sum_list_snoc: "sum_list (xs @ [y]) = sum_list xs + (y :: rat)"
  by simp

lemma sum_scaled:
  "sum_list (map (\<lambda>e. volume_usd e / t * 100) xs) = sum_list (map volume_usd xs) / t * (100 :: rat)"
  by (induction xs) (simp_all add: add_divide_distrib distrib_right)

lemma percentages_finite:
  assumes "total_volume_usd s \<noteq> 0"
  shows "map percentage (build_distribution s) =
     map Finite
       (map (\<lambda>e. volume_usd e / total_volume_usd s * 100) (take 10 (exchanges s)) @
        (if length (exchanges s) > 10
         then [sum_list (map volume_usd (drop 10 (exchanges s))) / total_volume_usd s * 100]
         else []))"
  by (simp add: percentages_of_distribution calculatePercentage_nonzero [OF assms] comp_def)

lemma sum_percentages_general:
  assumes "total_volume_usd s \<noteq> 0"
  shows "js_sum (map percentage (build_distribution s)) =
         Finite (sum_list (map volume_usd (exchanges s)) / total_volume_usd s * 100)"
proof -
  let ?t = "total_volume_usd s"
  have split: "sum_list (map volume_usd (exchanges s)) =
     sum_list (map volume_usd (take 10 (exchanges s))) +
     sum_list (map volume_usd (drop 10 (exchanges s)))"
    by (metis append_take_drop_id map_append sum_list_append)
  have "sum_list
       (map (\<lambda>e. volume_usd e / ?t * 100) (take 10 (exchanges s)) @
        (if length (exchanges s) > 10
         then [sum_list (map volume_usd (drop 10 (exchanges s))) / ?t * 100] else []))
      = sum_list (map volume_usd (exchanges s)) / ?t * 100"
  proof (cases "length (exchanges s) > 10")
    case True
    have "sum_list
       (map (\<lambda>e. volume_usd e / ?t * 100) (take 10 (exchanges s)) @
        [sum_list (map volume_usd (drop 10 (exchanges s))) / ?t * 100])
      = sum_list (map volume_usd (take 10 (exchanges s))) / ?t * 100 +
        sum_list (map volume_usd (drop 10 (exchanges s))) / ?t * 100"
      by (simp only: sum_list_snoc sum_scaled)
    also have "\<dots> = sum_list (map volume_usd (exchanges s)) / ?t * 100"
      by (simp only: split add_divide_distrib distrib_right)
    finally show ?thesis
      by (simp only: True if_True)
  next
    case False
    then have tk: "take 10 (exchanges s) = exchanges s" by simp
    show ?thesis
      by (simp only: False if_False append_Nil2 tk sum_scaled)
  qed
  then show ?thesis
    by (simp only: percentages_finite [OF assms] js_sum_Finite)
qed

text \<open>
  Claim C5, as the code has it. The percentages of the distribution (with the Others
  bucket) sum to 100 for every snapshot whose total_volume_usd is not zero and is the sum
  of the volume_usd of the exchanges it stores; transformVolumeData gives the second
  whenever at most 20 distinct exchanges were found. The sum is exact on the model's
  rationals, so it stays within 0.01 of 100.
\<close>

theorem distribution_sums_to_100:
  "total_volume_usd s \<noteq> 0 \<and> total_volume_usd s = sum_list (map volume_usd (exchanges s))
     \<longrightarrow> js_sum (map percentage (build_distribution s)) = Finite 100
          \<and> (\<exists>p. js_sum (map percentage (build_distribution s)) = Finite p
                \<and> \<bar>p - 100\<bar> \<le> 1 / 100)"
  using sum_percentages_general [of s] by simp

theorem distribution_sums_to_100_witness:
  "total_volume_usd (transformVolumeData response_3 0) \<noteq> 0
   \<and> total_volume_usd (transformVolumeData response_3 0) =
       sum_list (map volume_usd (exchanges (transformVolumeData response_3 0)))
   \<and> map percentage (build_distribution (transformVolumeData response_3 0)) =
       [Finite (225 / 4), Finite (175 / 4)]
   \<and> js_sum (map percentage (build_distribution (transformVolumeData response_3 0))) = Finite 100"
proof -
  have h: "total_volume_usd (transformVolumeData response_3 0) \<noteq> 0
     \<and> total_volume_usd (transformVolumeData response_3 0) =
         sum_list (map volume_usd (exchanges (transformVolumeData response_3 0)))"
    by code_simp
  have p: "map percentage (build_distribution (transformVolumeData response_3 0)) =
       [Finite (225 / 4), Finite (175 / 4)]"
    by code_simp
  from distribution_sums_to_100 [of "transformVolumeData response_3 0"] h
  have "js_sum (map percentage (build_distribution (transformVolumeData response_3 0))) = Finite 100"
    by blast
  with h p show ?thesis by blast
qed

text \<open>
  Claim C5 as stated fails: the snapshot built from 25 exchanges of volumes 1, ..., 25
  stores 20 exchanges and the total 325 of all 25, and its percentages sum to
  \<open>310 / 325 * 100\<close>, more than 4 below 100.
\<close>

theorem distribution_sum_below_100:
  "exchanges (transformVolumeData response_25 0) \<noteq> []
   \<and> js_sum (map percentage (build_distribution (transformVolumeData response_25 0))) =
       Finite (1240 / 13)
   \<and> \<not> \<bar>(1240 / 13 :: rat) - 100\<bar> \<le> 1 / 100"
  by code_simp

text \<open>
  Claim C10. calculatePercentage returns 0 for a zero total whatever the value, where
  the division it guards would return Infinity, -Infinity or NaN; so every bucket of a
  distribution built from a snapshot whose total_volume_usd is 0 has percentage 0.
\<close>

theorem calculatePercentage_zero_total:
  "calculatePercentage v 0 = Finite 0
   \<and> js_mul (js_div v 0) 100 \<in> {PosInfinity, NegInfinity, NaN}
   \<and> (total_volume_usd s = 0 \<longrightarrow> (\<forall>b \<in> set (build_distribution s). percentage b = Finite 0))"
proof (intro conjI impI ballI)
  show "calculatePercentage v 0 = Finite 0" by (rule calculatePercentage_zero)
next
  show "js_mul (js_div v 0) 100 \<in> {PosInfinity, NegInfinity, NaN}"
    by (rule unguarded_division_by_zero)
next
  fix b assume z: "total_volume_usd s = 0" and b: "b \<in> set (build_distribution s)"
  from b have "percentage b \<in> set (map percentage (build_distribution s))" by simp
  then show "percentage b = Finite 0"
    by (auto simp: percentages_of_distribution z calculatePercentage_zero)
qed

theorem calculatePercentage_zero_total_witness:
  "calculatePercentage 7 0 = Finite 0
   \<and> js_mul (js_div 7 0) 100 = PosInfinity
   \<and> total_volume_usd (transformVolumeData response_zero 0) = 0
   \<and> map pie_name (build_distribution (transformVolumeData response_zero 0)) = [''X'']
   \<and> map percentage (build_distribution (transformVolumeData response_zero 0)) = [Finite 0]"
proof -
  have z: "total_volume_usd (transformVolumeData response_zero 0) = 0"
    by code_simp
  have n: "map pie_name (build_distribution (transformVolumeData response_zero 0)) = [''X'']"
    by code_simp
  have u: "js_mul (js_div 7 0) 100 = PosInfinity"
    by (simp add: js_div_def)
  from n obtain b where b: "build_distribution (transformVolumeData response_zero 0) = [b]"
    by auto
  have "percentage b = Finite 0"
    using calculatePercentage_zero_total [of 0 "transformVolumeData response_zero 0"] z b by simp
  then show ?thesis
    using calculatePercentage_zero_total [of 7 "transformVolumeData response_zero 0"] z n b u
    by simp
qed

text \<open>
  With more than 10 stored exchanges the distribution has 11 buckets: the first 10
  exchanges with their volumes, and a last bucket named Others whose value is the summed
  volume of the remaining stored exchanges.
\<close>

theorem distribution_others_bucket:
  assumes "length (exchanges s) > 10"
  shows "length (build_distribution s) = 11
     \<and> map pie_name (build_distribution s) = map name (take 10 (exchanges s)) @ [''Others'']
     \<and> map pie_value (build_distribution s) =
         map volume_usd (take 10 (exchanges s)) @ [sum_list (map volume_usd (drop 10 (exchanges s)))]"
proof -
  have sl: "js_slice (exchanges s) 0 10 = take 10 (exchanges s)"
    using js_slice_take [of "exchanges s" 10] by simp
  have dr: "js_slice (exchanges s) 10 (int (length (exchanges s))) = drop 10 (exchanges s)"
    using js_slice_drop [of "exchanges s" 10] by simp
  have en: "map (f \<circ> snd) (enumerate 0 xs) = map f xs" for f :: "ExchangeVolume \<Rightarrow> 'b" and xs
    by (simp add: map_snd_enumerate flip: map_map)
  show ?thesis
    using assms en [of name "take 10 (exchanges s)"] en [of volume_usd "take 10 (exchanges s)"]
    by (simp add: build_distribution_def Let_def sl dr foldl_add_sum MAX_DISPLAY_EXCHANGES_def
        comp_def case_prod_beta)
qed

theorem distribution_others_bucket_witness:
  "length (exchanges (transformVolumeData response_25 0)) > 10
   \<and> length (build_distribution (transformVolumeData response_25 0)) = 11
   \<and> map pie_value (build_distribution (transformVolumeData response_25 0)) =
       [25, 24, 23, 22, 21, 20, 19, 18, 17, 16, 105]"
proof -
  have h: "length (exchanges (transformVolumeData response_25 0)) > 10"
    by code_simp
  have v: "map pie_value (build_distribution (transformVolumeData response_25 0)) =
       [25, 24, 23, 22, 21, 20, 19, 18, 17, 16, 105]"
    by code_simp
  from distribution_others_bucket [OF h] h v show ?thesis by simp
qed

subsection \<open>Percent change over 24 hours\<close>

lemma findOne_sort_key_None:
  fixes f :: "VolumeDocument \<Rightarrow> int"
  shows "findOne (sort_key f (filter P xs)) = None \<longleftrightarrow> \<not> (\<exists>x \<in> set xs. P x)"
proof -
  have "findOne (sort_key f (filter P xs)) = None \<longleftrightarrow> sort_key f (filter P xs) = []"
    by (simp add: findOne_def split: list.splits)
  also have "\<dots> \<longleftrightarrow> set (sort_key f (filter P xs)) = {}"
    by (simp only: set_empty)
  also have "\<dots> \<longleftrightarrow> \<not> (\<exists>x \<in> set xs. P x)"
    by auto
  finally show ?thesis .
qed

lemma findOne_sort_key_Some:
  fixes f :: "VolumeDocument \<Rightarrow> int"
  assumes "findOne (sort_key f (filter P xs)) = Some d"
  shows "d \<in> set xs \<and> P d \<and> (\<forall>x \<in> set xs. P x \<longrightarrow> f d \<le> f x)"
proof -
  from assms obtain rest where ys: "sort_key f (filter P xs) = d # rest"
    by (auto simp: findOne_def split: list.splits)
  have "set (sort_key f (filter P xs)) = {x \<in> set xs. P x}" by auto
  with ys have mem: "insert d (set rest) = {x \<in> set xs. P x}" by simp
  have "sorted (map f (sort_key f (filter P xs)))" by (rule sorted_sort_key)
  with ys have le: "\<forall>x \<in> set rest. f d \<le> f x" by simp
  from mem have "d \<in> set xs \<and> P d" by blast
  moreover have "\<forall>x \<in> set xs. P x \<longrightarrow> f d \<le> f x"
  proof (intro ballI impI)
    fix x assume "x \<in> set xs" "P x"
    then have "x \<in> insert d (set rest)" using mem by blast
    then show "f d \<le> f x" using le by auto
  qed
  ultimately show ?thesis by blast
qed

text \<open>
  Claim C7, as the code has it. On a store that is not empty the volumes query answers,
  and with \<open>latest\<close> a snapshot of greatest timestamp: when some snapshot lies at or after
  the window start (24 hours before now), the change is taken against an oldest such
  snapshot \<open>earliest\<close> and is
  \<open>(latest.total_volume_usd - earliest.total_volume_usd) / earliest.total_volume_usd * 100\<close>
  when \<open>earliest.total_volume_usd\<close> is not zero, and 0 when it is zero; when no snapshot
  lies at or after the window start the change is 0.
\<close>

theorem volume_change_over_window:
  assumes "coll \<noteq> []"
  shows "\<exists>resp latest. GET_volumes coll now = Inr resp \<and> latest \<in> set coll
     \<and> (\<forall>d \<in> set coll. timestamp d \<le> timestamp latest)
     \<and> (if \<exists>d \<in> set coll. now - 24 * 60 * 60 * 1000 \<le> timestamp d
        then \<exists>earliest \<in> set coll. now - 24 * 60 * 60 * 1000 \<le> timestamp earliest
               \<and> (\<forall>d \<in> set coll. now - 24 * 60 * 60 * 1000 \<le> timestamp d
                      \<longrightarrow> timestamp earliest \<le> timestamp d)
               \<and> volume_change_24h resp =
                   (if total_volume_usd earliest = 0 then Finite 0
                    else Finite ((total_volume_usd latest - total_volume_usd earliest)
                           / total_volume_usd earliest * 100))
        else volume_change_24h resp = Finite 0)"
proof -
  let ?start = "now - 24 * 60 * 60 * 1000"
  let ?inw = "\<lambda>d. ?start \<le> timestamp d"
  from assms have "\<exists>x \<in> set coll. True" by (cases coll) auto
  then have "findOne (find_sorted_desc (\<lambda>d. True) coll) \<noteq> None"
    unfolding find_sorted_desc_def
    using findOne_sort_key_None [of "\<lambda>d. - timestamp d" "\<lambda>d. True" coll]
    by blast
  then obtain latest where l: "findOne (find_sorted_desc (\<lambda>d. True) coll) = Some latest"
    by auto
  from findOne_sort_key_Some [OF l [unfolded find_sorted_desc_def]]
  have lmem: "latest \<in> set coll" and lmax: "\<forall>d \<in> set coll. timestamp d \<le> timestamp latest"
    by auto
  let ?oldest = "findOne (find_sorted_asc ?inw coll)"
  define resp where "resp =
      \<lparr>resp_total_volume_usd = total_volume_usd latest,
       resp_total_volume_near = total_volume_near latest,
       volume_change_24h = volume_change latest ?oldest,
       resp_exchange_count = exchange_count latest,
       resp_exchanges = exchanges latest,
       distribution = build_distribution latest,
       lastUpdated = timestamp latest\<rparr>"
  have r: "GET_volumes coll now = Inr resp"
    by (simp add: GET_volumes_def l Let_def resp_def)
  have ch: "volume_change_24h resp = volume_change latest ?oldest"
    by (simp add: resp_def)
  have tail: "if \<exists>d \<in> set coll. ?inw d
        then \<exists>earliest \<in> set coll. ?inw earliest
               \<and> (\<forall>d \<in> set coll. ?inw d \<longrightarrow> timestamp earliest \<le> timestamp d)
               \<and> volume_change_24h resp =
                   (if total_volume_usd earliest = 0 then Finite 0
                    else Finite ((total_volume_usd latest - total_volume_usd earliest)
                           / total_volume_usd earliest * 100))
        else volume_change_24h resp = Finite 0"
  proof (cases "\<exists>d \<in> set coll. ?inw d")
    case True
    then have "?oldest \<noteq> None"
      unfolding find_sorted_asc_def
      using findOne_sort_key_None [of timestamp ?inw coll] by blast
    then obtain e where e: "?oldest = Some e" by auto
    from findOne_sort_key_Some [OF e [unfolded find_sorted_asc_def]]
    have emem: "e \<in> set coll" and ein: "?inw e"
      and emin: "\<forall>d \<in> set coll. ?inw d \<longrightarrow> timestamp e \<le> timestamp d"
      by auto
    have "volume_change latest (Some e) =
       (if total_volume_usd e = 0 then Finite 0
        else Finite ((total_volume_usd latest - total_volume_usd e) / total_volume_usd e * 100))"
      by (simp add: volume_change_def Let_def js_div_def)
    then have "volume_change_24h resp =
       (if total_volume_usd e = 0 then Finite 0
        else Finite ((total_volume_usd latest - total_volume_usd e) / total_volume_usd e * 100))"
      by (simp only: e ch)
    with emem ein emin have "\<exists>earliest \<in> set coll. ?inw earliest
               \<and> (\<forall>d \<in> set coll. ?inw d \<longrightarrow> timestamp earliest \<le> timestamp d)
               \<and> volume_change_24h resp =
                   (if total_volume_usd earliest = 0 then Finite 0
                    else Finite ((total_volume_usd latest - total_volume_usd earliest)
                           / total_volume_usd earliest * 100))"
      by blast
    then show ?thesis
      by (simp only: True if_True)
  next
    case False
    then have "?oldest = None"
      unfolding find_sorted_asc_def
      using findOne_sort_key_None [of timestamp ?inw coll] by blast
    then have "volume_change latest ?oldest = Finite 0"
      by (simp only: volume_change_def option.case)
    with ch have "volume_change_24h resp = Finite 0" by (simp only:)
    then show ?thesis
      by (simp only: False if_False)
  qed
  from r lmem lmax tail show ?thesis by blast
qed

text \<open>
  The scenario of the claim: one snapshot 10 minutes old with total 5 and one 23 hours
  old with total 4 give the change 25.
\<close>

theorem volume_change_over_window_witness:
  "store_c \<noteq> []
   \<and> map total_volume_usd store_c = [4, 5]
   \<and> map_sum id volume_change_24h (GET_volumes store_c now_c) = Inr (Finite 25)
   \<and> (\<exists>resp latest. GET_volumes store_c now_c = Inr resp \<and> latest \<in> set store_c
        \<and> (\<forall>d \<in> set store_c. timestamp d \<le> timestamp latest)
        \<and> (if \<exists>d \<in> set store_c. now_c - 24 * 60 * 60 * 1000 \<le> timestamp d
           then \<exists>earliest \<in> set store_c. now_c - 24 * 60 * 60 * 1000 \<le> timestamp earliest
                  \<and> (\<forall>d \<in> set store_c. now_c - 24 * 60 * 60 * 1000 \<le> timestamp d
                         \<longrightarrow> timestamp earliest \<le> timestamp d)
                  \<and> volume_change_24h resp =
                      (if total_volume_usd earliest = 0 then Finite 0
                       else Finite ((total_volume_usd latest - total_volume_usd earliest)
                              / total_volume_usd earliest * 100))
           else volume_change_24h resp = Finite 0))"
proof -
  have ne: "store_c \<noteq> []"
    by (simp add: store_c_def)
  have v: "map total_volume_usd store_c = [4, 5]"
    by code_simp
  have c: "map_sum id volume_change_24h (GET_volumes store_c now_c) = Inr (Finite 25)"
    by code_simp
  from ne v c volume_change_over_window [OF ne, of now_c] show ?thesis
    by blast
qed

text \<open>
  Claim C7 as stated fails where the earliest snapshot of the window has total 0: the
  query reports the change 0, while the formula of the claim, evaluated on 5 and 0,
  is infinite.
\<close>

theorem volume_change_zero_earliest:
  "map total_volume_usd store_zero = [0, 5]
   \<and> map_sum id volume_change_24h (GET_volumes store_zero now_c) = Inr (Finite 0)
   \<and> spec_percent_change 5 0 = PosInfinity"
  by code_simp

section \<open>Properties of the snapshot builder\<close>

lemma transformPriceData_complete:
  "transformPriceData \<lparr>near = Some n, bitcoin = Some b, ethereum = Some e\<rparr> coinData now =
   Inr (add_market_data (baseData n b e now) coinData)"
  by (simp add: transformPriceData_def)

lemma transformPriceData_raises:
  "isl (transformPriceData data coinData now) \<longleftrightarrow>
   near data = None \<or> bitcoin data = None \<or> ethereum data = None"
  by (simp add: transformPriceData_def split: option.splits)

lemma cross_rates_add_market_data:
  "near_btc (add_market_data d coinData) = near_btc d"
  "near_eth (add_market_data d coinData) = near_eth d"
  by (simp_all add: add_market_data_def split: option.splits)

lemma cross_rates_baseData:
  "near_btc (baseData n b e now) = js_div_val (usd n) (usd b)"
  "near_eth (baseData n b e now) = js_div_val (usd n) (usd e)"
  by (simp_all add: baseData_def Let_def)

lemma js_div_val_zero: "js_div_val a (Some 0) \<in> {PosInfinity, NegInfinity, NaN}"
  by (simp add: js_div_val_def js_div_def split: option.splits)

lemma js_div_val_undefined: "js_div_val a None = NaN"
  by (simp add: js_div_val_def split: option.splits)

text \<open>
  Claim C2, as the code has it. A reference price of exactly 0 does not make
  transformPriceData fail: on a price response that carries the near, bitcoin and
  ethereum objects it returns a snapshot whose cross-rates are the quotients
  \<open>near_usd / btc_usd\<close> and \<open>near_usd / eth_usd\<close> as JavaScript divides, so that a
  reference price of exactly 0 gives Infinity, -Infinity or NaN and a usd value missing
  from its object gives NaN; and when the three requests succeeded fetchAllData returns
  the snapshot with that rate. transformPriceData raises exactly when the response lacks
  one of the three objects.
\<close>

theorem cross_rate_by_zero_is_not_finite:
  "transformPriceData \<lparr>near = Some n, bitcoin = Some b, ethereum = Some e\<rparr> coinData now =
     Inr (add_market_data (baseData n b e now) coinData)
   \<and> near_btc (add_market_data (baseData n b e now) coinData) = js_div_val (usd n) (usd b)
   \<and> near_eth (add_market_data (baseData n b e now) coinData) = js_div_val (usd n) (usd e)
   \<and> (usd b = Some 0 \<longrightarrow>
        near_btc (add_market_data (baseData n b e now) coinData)
          \<in> {PosInfinity, NegInfinity, NaN})
   \<and> (usd e = Some 0 \<longrightarrow>
        near_eth (add_market_data (baseData n b e now) coinData)
          \<in> {PosInfinity, NegInfinity, NaN})
   \<and> (usd b = None \<longrightarrow> near_btc (add_market_data (baseData n b e now) coinData) = NaN)
   \<and> (usd e = None \<longrightarrow> near_eth (add_market_data (baseData n b e now) coinData) = NaN)
   \<and> fetchAllData (Inr \<lparr>near = Some n, bitcoin = Some b, ethereum = Some e\<rparr>) (Inr coin)
        (Inr tickerData) now =
        Inr (add_market_data (baseData n b e now) (Some coin),
             transformVolumeData tickerData now)
   \<and> (isl (transformPriceData data coinData now) \<longleftrightarrow>
        near data = None \<or> bitcoin data = None \<or> ethereum data = None)"
  using js_div_val_zero [of "usd n"] transformPriceData_raises [of data coinData now]
  by (simp add: transformPriceData_complete cross_rates_add_market_data cross_rates_baseData
      js_div_val_undefined fetchAllData_def)

theorem cross_rate_by_zero_is_not_finite_witness:
  "usd \<lparr>usd = Some (0 :: rat)\<rparr> = Some 0
   \<and> near_btc (add_market_data
         (baseData near_sample \<lparr>usd = Some 0\<rparr> \<lparr>usd = Some 4000\<rparr> 0) (Some coin_sample))
       \<in> {PosInfinity, NegInfinity, NaN}
   \<and> near_eth (add_market_data
         (baseData (near_sample\<lparr>usd := Some 0\<rparr>) \<lparr>usd = Some 100000\<rparr> \<lparr>usd = Some 0\<rparr> 0) None)
       \<in> {PosInfinity, NegInfinity, NaN}
   \<and> near_btc (add_market_data (baseData near_sample \<lparr>usd = None\<rparr> \<lparr>usd = None\<rparr> 0) None) = NaN
   \<and> near_eth (add_market_data (baseData near_sample \<lparr>usd = None\<rparr> \<lparr>usd = None\<rparr> 0) None) = NaN
   \<and> map_sum id btc_usd (transformPriceData prices_btc_zero (Some coin_sample) 0) = Inr (Some 0)
   \<and> map_sum id near_btc (transformPriceData prices_btc_zero (Some coin_sample) 0) =
       Inr PosInfinity
   \<and> map_sum id eth_usd (transformPriceData prices_all_zero None 0) = Inr (Some 0)
   \<and> map_sum id near_eth (transformPriceData prices_all_zero None 0) = Inr NaN
   \<and> map_sum id near_btc (transformPriceData prices_usd_missing None 0) = Inr NaN
   \<and> bitcoin prices_without_bitcoin = None
   \<and> isl (transformPriceData prices_without_bitcoin (Some coin_sample) 0)"
proof -
  have z: "usd \<lparr>usd = Some (0 :: rat)\<rparr> = Some 0" and u: "usd \<lparr>usd = (None :: rat option)\<rparr> = None"
    by simp_all
  have nb: "bitcoin prices_without_bitcoin = None"
    by (simp add: prices_without_bitcoin_def)
  note t1 = cross_rate_by_zero_is_not_finite
      [of near_sample "\<lparr>usd = Some 0\<rparr>" "\<lparr>usd = Some 4000\<rparr>" "Some coin_sample" 0
          coin_sample response_3 prices_without_bitcoin]
  note t2 = cross_rate_by_zero_is_not_finite
      [of "near_sample\<lparr>usd := Some 0\<rparr>" "\<lparr>usd = Some 100000\<rparr>" "\<lparr>usd = Some 0\<rparr>" None 0
          coin_sample response_3 prices_without_bitcoin]
  note t3 = cross_rate_by_zero_is_not_finite
      [of near_sample "\<lparr>usd = None\<rparr>" "\<lparr>usd = None\<rparr>" None 0
          coin_sample response_3 prices_without_bitcoin]
  from t1 z have a: "near_btc (add_market_data
         (baseData near_sample \<lparr>usd = Some 0\<rparr> \<lparr>usd = Some 4000\<rparr> 0) (Some coin_sample))
       \<in> {PosInfinity, NegInfinity, NaN}"
    by blast
  from t2 z have b: "near_eth (add_market_data
         (baseData (near_sample\<lparr>usd := Some 0\<rparr>) \<lparr>usd = Some 100000\<rparr> \<lparr>usd = Some 0\<rparr> 0) None)
       \<in> {PosInfinity, NegInfinity, NaN}"
    by blast
  from t3 u have c:
    "near_btc (add_market_data (baseData near_sample \<lparr>usd = None\<rparr> \<lparr>usd = None\<rparr> 0) None) = NaN"
    "near_eth (add_market_data (baseData near_sample \<lparr>usd = None\<rparr> \<lparr>usd = None\<rparr> 0) None) = NaN"
    by blast+
  from t1 nb have r: "isl (transformPriceData prices_without_bitcoin (Some coin_sample) 0)"
    by blast
  have ev:
    "map_sum id btc_usd (transformPriceData prices_btc_zero (Some coin_sample) 0) = Inr (Some 0)"
    "map_sum id near_btc (transformPriceData prices_btc_zero (Some coin_sample) 0) =
       Inr PosInfinity"
    "map_sum id eth_usd (transformPriceData prices_all_zero None 0) = Inr (Some 0)"
    "map_sum id near_eth (transformPriceData prices_all_zero None 0) = Inr NaN"
    "map_sum id near_btc (transformPriceData prices_usd_missing None 0) = Inr NaN"
    by (simp_all add: transformPriceData_def add_market_data_def baseData_def Let_def
        coin_sample_def prices_btc_zero_def prices_sample_def prices_all_zero_def
        prices_usd_missing_def near_sample_def js_div_val_def js_div_def)
  from z a b c ev nb r show ?thesis by blast
qed

text \<open>
  Claim C2 as stated fails: with a bitcoin price of exactly 0 and a NEAR price of 5 the
  snapshot is built, its near_btc is Infinity, and the cycle's fetch returns it.
\<close>

theorem zero_reference_price_yields_snapshot:
  "map_sum id btc_usd (transformPriceData prices_btc_zero (Some coin_sample) 0) = Inr (Some 0)
   \<and> map_sum id near_btc (transformPriceData prices_btc_zero (Some coin_sample) 0) =
       Inr PosInfinity
   \<and> map_sum id (near_btc \<circ> fst)
       (fetchAllData (Inr prices_btc_zero) (Inr coin_sample) (Inr response_3) 0)
       = Inr PosInfinity"
  by (simp add: fetchAllData_def transformPriceData_def add_market_data_def baseData_def
      Let_def coin_sample_def prices_btc_zero_def prices_sample_def near_sample_def
      js_div_val_def js_div_def)




section \<open>Properties of the rate-limited fetch client\<close>

text \<open>
  Claim C8, at three calls made one second into a window. With the counter saturated at
  25 the call waits for the window to end, the counter is reset to 0, the request is
  sent and answered, and the counter still reads 0: that call is not counted. A call
  that proceeds at once takes the counter from 3 to 4. A call answered with status 429
  waits, the counter is reset, and the retry is counted, so the counter reads 1.
\<close>

theorem call_after_wait_is_not_counted:
  "fetchFromCoinGecko saturated_client [ok_response] =
     Some (Inr ''{}'', \<lparr>callCount = 0, lastResetTime = 60100, clock = 60150\<rparr>, [])
   \<and> fetchFromCoinGecko fresh_client [ok_response] =
     Some (Inr ''{}'', \<lparr>callCount = 4, lastResetTime = 0, clock = 1050\<rparr>, [])
   \<and> fetchFromCoinGecko fresh_client [throttled_response, ok_response] =
     Some (Inr ''{}'', \<lparr>callCount = 1, lastResetTime = 60100, clock = 60150\<rparr>, [])"
  by (simp add: saturated_client_def fresh_client_def ok_response_def throttled_response_def
      response_ok_def checkRateLimit_def waitForRateLimit_def Let_def RESET_INTERVAL_def
      CALLS_PER_MINUTE_def)

text \<open>
  A call that proceeds at once, inside the window and below the ceiling, and is answered
  with a success status returns the body and leaves the counter one higher.
\<close>

theorem immediate_call_is_counted:
  assumes "callCount w < CALLS_PER_MINUTE" and "clock w - lastResetTime w \<le> RESET_INTERVAL"
    and "response_ok r"
  shows "fetchFromCoinGecko w (r # rest) =
           Some (Inr (json_body r),
                 w\<lparr>callCount := callCount w + 1, clock := clock w + elapsed r\<rparr>, rest)"
  using assms by (simp add: checkRateLimit_def Let_def)

theorem immediate_call_is_counted_witness:
  "callCount fresh_client < CALLS_PER_MINUTE
   \<and> clock fresh_client - lastResetTime fresh_client \<le> RESET_INTERVAL
   \<and> response_ok ok_response
   \<and> map_option (callCount \<circ> fst \<circ> snd) (fetchFromCoinGecko fresh_client [ok_response]) = Some 4"
proof -
  have h: "callCount fresh_client < CALLS_PER_MINUTE"
    "clock fresh_client - lastResetTime fresh_client \<le> RESET_INTERVAL"
    "response_ok ok_response"
    by (simp_all add: fresh_client_def CALLS_PER_MINUTE_def RESET_INTERVAL_def response_ok_def
        ok_response_def)
  from immediate_call_is_counted [OF h, of "[]"] h show ?thesis
    by (simp add: fresh_client_def)
qed

text \<open>
  A call made inside the window with the counter at the ceiling waits until 100 ms past
  the end of the window, and when it is answered with a success status it leaves the
  counter at 0: the request it sent is not counted.
\<close>

theorem waiting_call_is_not_counted:
  assumes "callCount w \<ge> CALLS_PER_MINUTE" and "clock w - lastResetTime w < RESET_INTERVAL"
    and "response_ok r"
  shows "fetchFromCoinGecko w (r # rest) =
           Some (Inr (json_body r),
                 w\<lparr>callCount := 0,
                   lastResetTime := lastResetTime w + RESET_INTERVAL + 100,
                   clock := lastResetTime w + RESET_INTERVAL + 100 + elapsed r\<rparr>, rest)"
  using assms by (simp add: checkRateLimit_def waitForRateLimit_def Let_def)

theorem waiting_call_is_not_counted_witness:
  "callCount saturated_client \<ge> CALLS_PER_MINUTE
   \<and> clock saturated_client - lastResetTime saturated_client < RESET_INTERVAL
   \<and> response_ok ok_response
   \<and> map_option (callCount \<circ> fst \<circ> snd) (fetchFromCoinGecko saturated_client [ok_response]) = Some 0"
proof -
  have h: "callCount saturated_client \<ge> CALLS_PER_MINUTE"
    "clock saturated_client - lastResetTime saturated_client < RESET_INTERVAL"
    "response_ok ok_response"
    by (simp_all add: saturated_client_def CALLS_PER_MINUTE_def RESET_INTERVAL_def response_ok_def
        ok_response_def)
  from waiting_call_is_not_counted [OF h, of "[]"] h show ?thesis
    by (simp add: saturated_client_def)
qed

section \<open>Properties of the exchange volume history query\<close>

lemma map_get_init:
  "map_get (foldl (\<lambda>m nm. map_set m nm []) m0 tops) nm =
     (if nm \<in> set tops then Some [] else map_get m0 nm)"
  by (induction tops arbitrary: m0) (auto simp: map_get_map_set)

lemma map_get_push_point:
  "map_get (push_point doc ed a) nm =
     (if nm = a then map_option (\<lambda>d. d @ [series_point doc nm]) (map_get ed nm) else map_get ed nm)"
  by (cases "map_get ed a") (auto simp: push_point_def map_get_map_set)

lemma map_get_push_all:
  "distinct tops \<Longrightarrow>
   map_get (foldl (push_point doc) ed tops) nm =
     (if nm \<in> set tops then map_option (\<lambda>d. d @ [series_point doc nm]) (map_get ed nm)
      else map_get ed nm)"
proof (induction tops arbitrary: ed)
  case Nil
  then show ?case by simp
next
  case (Cons a tops)
  then have d: "distinct tops" and na: "a \<notin> set tops" by auto
  show ?case
    using Cons.IH [OF d, of "push_point doc ed a"] na
    by (auto simp: map_get_push_point)
qed

lemma build_series_general:
  "distinct tops \<Longrightarrow>
   fst (foldl (process_doc tops) st docs) = fst st @ map unix_seconds docs \<and>
   map_get (snd (foldl (process_doc tops) st docs)) nm =
     (if nm \<in> set tops
      then map_option (\<lambda>d. d @ map (\<lambda>doc. series_point doc nm) docs) (map_get (snd st) nm)
      else map_get (snd st) nm)"
proof (induction docs arbitrary: st)
  case Nil
  then show ?case by (simp add: option.map_ident)
next
  case (Cons doc docs)
  show ?case
    using Cons.IH [OF Cons.prems, of "process_doc tops st doc"] Cons.prems
    by (auto simp: process_doc_def map_get_push_all option.map_comp comp_def)
qed

lemma build_series_result:
  assumes "distinct tops"
  shows "fst (build_series tops docs) = map unix_seconds docs"
    and "nm \<in> set tops \<Longrightarrow>
         map_get (snd (build_series tops docs)) nm = Some (map (\<lambda>doc. series_point doc nm) docs)"
  using build_series_general [OF assms, of "([], init_exchange_data tops)" docs nm]
  by (simp_all add: build_series_def init_exchange_data_def map_get_init)


lemma distinct_keys_add_exchange_total:
  "distinct (map fst m) \<Longrightarrow> distinct (map fst (add_exchange_total m e))"
  by (simp add: add_exchange_total_def Let_def distinct_keys_map_set)

lemma distinct_keys_foldl_totals:
  "distinct (map fst m) \<Longrightarrow> distinct (map fst (foldl add_exchange_total m es))"
  by (induction es arbitrary: m) (simp_all add: distinct_keys_add_exchange_total)

lemma distinct_keys_exchange_totals_aux:
  "distinct (map fst m) \<Longrightarrow>
   distinct (map fst (foldl (\<lambda>totals doc. foldl add_exchange_total totals (exchanges doc)) m docs))"
  by (induction docs arbitrary: m) (simp_all add: distinct_keys_foldl_totals)

lemma distinct_keys_exchange_totals: "distinct (map fst (exchange_totals docs))"
  using distinct_keys_exchange_totals_aux [of "[]" docs] by (simp add: exchange_totals_def)

lemma distinct_top_exchanges: "distinct (top_exchanges docs limit)"
  unfolding top_exchanges_def slice_to_def
  by (cases limit)
     (simp_all add: distinct_keys_js_slice distinct_keys_js_sort distinct_keys_exchange_totals)

lemma keys_volume_map_aux:
  "set (map fst (foldl (\<lambda>m exchange. map_set m (name exchange) (volume_usd exchange)) m0 es)) =
   set (map fst m0) \<union> name ` set es"
  by (induction es arbitrary: m0) (simp_all add: keys_map_set)

lemma volume_map_missing:
  "nm \<notin> name ` set (exchanges doc) \<Longrightarrow> map_get (volume_map doc) nm = None"
  using keys_volume_map_aux [of "[]" "exchanges doc"]
  by (simp add: map_get_None_iff volume_map_def)

lemma series_point_missing:
  "nm \<notin> name ` set (exchanges doc) \<Longrightarrow> point_value (series_point doc nm) = 0"
  by (simp add: series_point_def volume_map_missing or_zero_def)

lemma sorted_unix_seconds: "sorted (map unix_seconds (snapshots_in_window coll start))"
proof -
  have "sorted (map timestamp (snapshots_in_window coll start))"
    by (simp add: snapshots_in_window_def find_sorted_asc_def)
  then have "sorted_wrt (\<lambda>a b. timestamp a \<le> timestamp b) (snapshots_in_window coll start)"
    by (simp add: sorted_map)
  then have "sorted_wrt (\<lambda>a b. unix_seconds a \<le> unix_seconds b) (snapshots_in_window coll start)"
    by (rule sorted_wrt_mono_rel [rotated]) (simp add: unix_seconds_def zdiv_mono1)
  then show ?thesis
    by (simp add: sorted_map)
qed

lemma length_snapshots_in_window:
  "length (snapshots_in_window coll start) = length (filter (\<lambda>d. start \<le> timestamp d) coll)"
  by (simp add: snapshots_in_window_def find_sorted_asc_def)


lemma GET_exchange_history_Inr:
  assumes "GET_exchange_history coll now range_param parsed_limit = Inr resp"
    and "docs = snapshots_in_window coll (getTimeRangeStart (or_default range_param ''24h'') now)"
  shows "history_exchanges resp =
           map (\<lambda>(index, nm).
                  \<lparr>series_name = nm, series_color = js_index EXCHANGE_COLORS index,
                   series_data =
                     (case map_get (snd (build_series (top_exchanges docs (min_limit parsed_limit)) docs)) nm of
                        Some data \<Rightarrow> data | None \<Rightarrow> [])\<rparr>)
             (enumerate 0 (top_exchanges docs (min_limit parsed_limit)))"
    and "history_timestamps resp =
           js_unique (fst (build_series (top_exchanges docs (min_limit parsed_limit)) docs))"
    and "docs \<noteq> []"
  using assms
  by (auto simp: GET_exchange_history_def Let_def split: if_splits)

text \<open>
  Claim C9. When the exchange-volume-history query answers, every series it returns has
  one point per snapshot of the window, in the snapshots' order and at their times, so
  all series are as long as the window has snapshots; the point is 0 at every snapshot
  whose stored exchange list does not name the exchange; the series are those of the
  selected top exchanges; and the timestamps field lists the snapshots' times in seconds
  in strictly ascending order, each once.
\<close>

theorem exchange_history_series:
  assumes ok: "GET_exchange_history coll now range_param parsed_limit = Inr resp"
    and start: "start = getTimeRangeStart (or_default range_param ''24h'') now"
    and docs: "docs = snapshots_in_window coll start"
  shows "(\<forall>s \<in> set (history_exchanges resp).
            length (series_data s) = length (filter (\<lambda>d. start \<le> timestamp d) coll)
          \<and> map point_time (series_data s) = map unix_seconds docs
          \<and> (\<forall>i < length docs. series_name s \<notin> name ` set (exchanges (docs ! i))
                \<longrightarrow> point_value (series_data s ! i) = 0))
       \<and> map series_name (history_exchanges resp) = top_exchanges docs (min_limit parsed_limit)
       \<and> set docs = {d \<in> set coll. start \<le> timestamp d}
       \<and> sorted (history_timestamps resp) \<and> distinct (history_timestamps resp)
       \<and> set (history_timestamps resp) = unix_seconds ` set docs"
proof -
  let ?tops = "top_exchanges docs (min_limit parsed_limit)"
  have docs': "docs = snapshots_in_window coll (getTimeRangeStart (or_default range_param ''24h'') now)"
    using docs start by simp
  note r = GET_exchange_history_Inr [OF ok docs']
  have dt: "distinct ?tops" by (rule distinct_top_exchanges)
  have names: "map series_name (history_exchanges resp) = ?tops"
  proof -
    have "map series_name (history_exchanges resp) = map snd (enumerate 0 ?tops)"
      unfolding r(1) by (simp add: comp_def case_prod_beta)
    then show ?thesis by (simp only: map_snd_enumerate)
  qed
  have data: "series_data s = map (\<lambda>doc. series_point doc (series_name s)) docs"
    if "s \<in> set (history_exchanges resp)" for s
  proof -
    from that obtain i nm where inm: "(i, nm) \<in> set (enumerate 0 ?tops)"
      and s: "s = \<lparr>series_name = nm, series_color = js_index EXCHANGE_COLORS i,
                   series_data = (case map_get (snd (build_series ?tops docs)) nm of
                                    Some data \<Rightarrow> data | None \<Rightarrow> [])\<rparr>"
      unfolding r(1) by auto
    from inm have "nm \<in> set ?tops"
      by (auto simp: in_set_enumerate_eq)
    then have "map_get (snd (build_series ?tops docs)) nm = Some (map (\<lambda>doc. series_point doc nm) docs)"
      by (rule build_series_result(2) [OF dt])
    with s show ?thesis by simp
  qed
  have part1: "\<forall>s \<in> set (history_exchanges resp).
            length (series_data s) = length (filter (\<lambda>d. start \<le> timestamp d) coll)
          \<and> map point_time (series_data s) = map unix_seconds docs
          \<and> (\<forall>i < length docs. series_name s \<notin> name ` set (exchanges (docs ! i))
                \<longrightarrow> point_value (series_data s ! i) = 0)"
  proof (intro ballI conjI allI impI)
    fix s assume s: "s \<in> set (history_exchanges resp)"
    show "length (series_data s) = length (filter (\<lambda>d. start \<le> timestamp d) coll)"
      by (simp add: data [OF s] docs length_snapshots_in_window)
    show "map point_time (series_data s) = map unix_seconds docs"
      by (simp add: data [OF s] series_point_def comp_def)
    fix i assume "i < length docs" "series_name s \<notin> name ` set (exchanges (docs ! i))"
    then show "point_value (series_data s ! i) = 0"
      by (simp add: data [OF s] series_point_missing)
  qed
  have ts: "history_timestamps resp = js_unique (map unix_seconds docs)"
    unfolding r(2) by (simp only: build_series_result(1) [OF dt])
  have srt: "sorted (map unix_seconds docs)"
    unfolding docs by (rule sorted_unix_seconds)
  have setdocs: "set docs = {d \<in> set coll. start \<le> timestamp d}"
    by (auto simp: docs snapshots_in_window_def find_sorted_asc_def)
  from js_unique_sorted [OF srt] ts
  have "sorted (history_timestamps resp)" "distinct (history_timestamps resp)"
    "set (history_timestamps resp) = unix_seconds ` set docs"
    by simp_all
  with part1 names setdocs show ?thesis by blast
qed

theorem exchange_history_series_witness:
  "GET_exchange_history store_h now_c (Some ''1h'') (Some 5) = Inr history_h
   \<and> length (filter (\<lambda>d. getTimeRangeStart ''1h'' now_c \<le> timestamp d) store_h) = 2
   \<and> map (length \<circ> series_data) (history_exchanges history_h) = [2, 2]
   \<and> map (map point_value \<circ> series_data) (history_exchanges history_h) = [[7, 5], [9, 0]]
   \<and> sorted (history_timestamps history_h) \<and> distinct (history_timestamps history_h)
   \<and> top_exchanges (snapshots_in_window store_h (getTimeRangeStart ''1h'' now_c))
        (min_limit (Some 5)) = [''X'', ''Y'']"
proof -
  have ok: "GET_exchange_history store_h now_c (Some ''1h'') (Some 5) = Inr history_h"
    by code_simp
  have st: "getTimeRangeStart ''1h'' now_c =
            getTimeRangeStart (or_default (Some ''1h'') ''24h'') now_c"
    by (simp add: or_default_def)
  note t = exchange_history_series [OF ok st refl]
  have n: "length (filter (\<lambda>d. getTimeRangeStart ''1h'' now_c \<le> timestamp d) store_h) = 2"
    by code_simp
  have e: "map (length \<circ> series_data) (history_exchanges history_h) = [2, 2]"
          "map (map point_value \<circ> series_data) (history_exchanges history_h) = [[7, 5], [9, 0]]"
          "map series_name (history_exchanges history_h) = [''X'', ''Y'']"
    by (simp_all add: history_h_def)
  from t have "sorted (history_timestamps history_h)" "distinct (history_timestamps history_h)"
    "top_exchanges (snapshots_in_window store_h (getTimeRangeStart ''1h'' now_c))
        (min_limit (Some 5)) = map series_name (history_exchanges history_h)"
    by simp_all
  with ok n e show ?thesis by simp
qed

section \<open>The ticker aggregation under reordering of its input\<close>

lemma foldl_add_ticker_filter:
  "foldl add_ticker m (filter unflagged ts) = foldl add_ticker m ts"
  by (induction ts arbitrary: m) (simp_all add: add_ticker_def unflagged_def)

lemma exchange_buckets_snoc:
  "exchange_buckets (ts @ [t]) = add_ticker (exchange_buckets ts) t"
  by (simp add: exchange_buckets_def)

lemma tickers_of_empty:
  "map_get (exchange_buckets ts) k = None \<Longrightarrow> tickers_of ts k = []"
proof -
  assume "map_get (exchange_buckets ts) k = None"
  then have "k \<notin> market_name ` {t \<in> set ts. unflagged t}"
    using keys_exchange_buckets(2) [of ts] by (simp add: map_get_None_iff)
  then show ?thesis
    by (auto simp: tickers_of_def filter_empty_conv)
qed

lemma bucket_summaries:
  "map_get (exchange_buckets ts) k = Some e \<Longrightarrow> bucket_summary e = aggregate_of ts k"
proof (induction ts arbitrary: e rule: rev_induct)
  case Nil
  then show ?case by (simp add: exchange_buckets_def map_get_def)
next
  case (snoc t ts)
  let ?m = "exchange_buckets ts"
  show ?case
  proof (cases "unflagged t \<and> market_name t = k")
    case False
    then have same: "tickers_of (ts @ [t]) k = tickers_of ts k"
      by (auto simp: tickers_of_def)
    have "map_get (add_ticker ?m t) k = map_get ?m k"
      using False
      by (cases "map_get ?m (market_name t)")
         (auto simp: add_ticker_def unflagged_def Let_def map_get_map_set)
    with snoc.prems have "map_get ?m k = Some e"
      by (simp add: exchange_buckets_snoc)
    from snoc.IH [OF this] show ?thesis
      by (simp add: aggregate_of_def same)
  next
    case True
    then have more: "tickers_of (ts @ [t]) k = tickers_of ts k @ [t]"
      by (auto simp: tickers_of_def)
    show ?thesis
    proof (cases "map_get ?m k")
      case None
      then have e: "e = \<lparr>name = k, volume_usd = converted_volume_usd t, volume_near = volume t,
                trading_pairs = [pair_label t], trust_score = ticker_trust_score t,
                trade_url = url_or_undefined (ticker_trade_url t)\<rparr>"
        using snoc.prems True
        by (simp add: exchange_buckets_snoc add_ticker_def unflagged_def Let_def map_get_map_set)
      show ?thesis
        by (simp add: e bucket_summary_def aggregate_of_def more tickers_of_empty [OF None])
    next
      case (Some old)
      then have e: "e = old\<lparr>volume_usd := volume_usd old + converted_volume_usd t,
                 volume_near := volume_near old + volume t,
                 trading_pairs := (if pair_label t \<in> set (trading_pairs old)
                    then trading_pairs old else trading_pairs old @ [pair_label t])\<rparr>"
        using snoc.prems True
        by (simp add: exchange_buckets_snoc add_ticker_def unflagged_def Let_def map_get_map_set)
      from snoc.IH [OF Some] have "bucket_summary old = aggregate_of ts k" .
      then show ?thesis
        by (auto simp: e bucket_summary_def aggregate_of_def more)
    qed
  qed
qed

lemma summaries_of_buckets:
  "map bucket_summary (map_values (exchange_buckets ts)) =
   map (aggregate_of ts) (map fst (exchange_buckets ts))"
proof -
  have "bucket_summary (snd p) = aggregate_of ts (fst p)" if "p \<in> set (exchange_buckets ts)" for p
  proof -
    from that have "map_of (exchange_buckets ts) (fst p) = Some (snd p)"
      using keys_exchange_buckets(1) [of ts]
        map_of_eq_Some_iff [of "exchange_buckets ts" "fst p" "snd p"]
      by simp
    then show ?thesis
      by (intro bucket_summaries) (simp add: map_get_def)
  qed
  then show ?thesis
    by (simp add: map_values_def)
qed

lemma aggregate_of_mset:
  assumes "mset ts' = mset ts"
  shows "aggregate_of ts' k = aggregate_of ts k"
proof -
  have m: "mset (tickers_of ts' k) = mset (tickers_of ts k)"
    using assms by (simp add: tickers_of_def)
  have "sum_list (map f (tickers_of ts' k)) = (sum_list (map f (tickers_of ts k)) :: rat)" for f
    using m by (metis mset_map sum_mset_sum_list)
  moreover have "set (tickers_of ts' k) = set (tickers_of ts k)"
    using m by (metis set_mset_mset)
  ultimately show ?thesis
    by (simp add: aggregate_of_def)
qed

lemma mset_summaries:
  assumes "mset ts' = mset ts"
  shows "mset (map bucket_summary (map_values (exchange_buckets ts'))) =
         mset (map bucket_summary (map_values (exchange_buckets ts)))"
proof -
  have s: "set ts' = set ts" using assms by (metis set_mset_mset)
  have keys: "mset (map fst (exchange_buckets ts')) = mset (map fst (exchange_buckets ts))"
    using keys_exchange_buckets [of ts] keys_exchange_buckets [of ts'] s
    by (metis set_eq_iff_mset_eq_distinct)
  have f: "aggregate_of ts' = aggregate_of ts"
    by (rule ext) (rule aggregate_of_mset [OF assms])
  have "mset (map (aggregate_of ts') (map fst (exchange_buckets ts'))) =
        mset (map (aggregate_of ts) (map fst (exchange_buckets ts)))"
    unfolding f using keys by (metis mset_map)
  then show ?thesis
    by (simp only: summaries_of_buckets)
qed


lemma desc_sorted_unique:
  fixes xs ys :: "rat list"
  assumes "sorted_wrt (\<lambda>a b. b \<le> a) xs" "sorted_wrt (\<lambda>a b. b \<le> a) ys" "mset xs = mset ys"
  shows "xs = ys"
proof -
  have sx: "sorted (rev xs)" and sy: "sorted (rev ys)"
    using assms(1,2) by (simp_all add: sorted_wrt_rev)
  have "mset (rev xs) = mset (rev ys)" using assms(3) by simp
  from properties_for_sort [OF this sx] have "sort (rev ys) = rev xs" .
  moreover have "sort (rev ys) = rev ys" using sy by (rule sorted_sort_id)
  ultimately show ?thesis by simp
qed

lemma sorted_volumes:
  "sorted_wrt (\<lambda>a b. b \<le> a) (map volume_usd (js_sort by_volume_desc xs))"
  using sorted_js_sort_volume [of xs] by (simp add: sorted_wrt_map)

lemma volumes_of_summaries: "map volume_usd xs = map (fst \<circ> snd) (map bucket_summary xs)"
  by (simp add: bucket_summary_def comp_def)

lemma sorted_volumes_equal:
  assumes "mset (map bucket_summary xs) = mset (map bucket_summary ys)"
  shows "map volume_usd (js_sort by_volume_desc xs) = map volume_usd (js_sort by_volume_desc ys)"
proof -
  have "mset (map volume_usd xs) = mset (map volume_usd ys)"
    unfolding volumes_of_summaries using assms by (metis mset_map)
  then have "mset (map volume_usd (js_sort by_volume_desc xs)) =
             mset (map volume_usd (js_sort by_volume_desc ys))"
    by (simp add: mset_js_sort)
  with sorted_volumes [of xs] sorted_volumes [of ys] show ?thesis
    by (rule desc_sorted_unique)
qed

lemma sorted_summaries_equal:
  assumes m: "mset (map bucket_summary xs) = mset (map bucket_summary ys)"
    and d: "distinct (map volume_usd xs)"
  shows "map bucket_summary (js_sort by_volume_desc xs) =
         map bucket_summary (js_sort by_volume_desc ys)"
proof -
  let ?L = "map bucket_summary (js_sort by_volume_desc xs)"
  let ?L' = "map bucket_summary (js_sort by_volume_desc ys)"
  have mm: "mset ?L = mset ?L'"
    using m by (simp add: mset_js_sort)
  have keys: "map (fst \<circ> snd) ?L = map (fst \<circ> snd) ?L'"
    using sorted_volumes_equal [OF m] by (simp only: volumes_of_summaries)
  have "map (fst \<circ> snd) ?L = map volume_usd (js_sort by_volume_desc xs)"
    by (simp only: volumes_of_summaries)
  also have "mset \<dots> = mset (map volume_usd xs)"
    by (simp add: mset_js_sort)
  finally have "mset (map (fst \<circ> snd) ?L) = mset (map volume_usd xs)" .
  then have "distinct (map (fst \<circ> snd) ?L)"
    using d by (metis mset_eq_imp_distinct_iff)
  then have inj: "inj_on (fst \<circ> snd) (set ?L)"
    by (simp only: distinct_map)
  have "set ?L' = set ?L"
    using mm by (metis set_mset_mset)
  with inj have "inj_on (fst \<circ> snd) (set ?L \<union> set ?L')" by simp
  from inj_on_map_eq_map [OF this] keys show ?thesis by blast
qed

lemma transformVolumeData_fields:
  "exchange_count (transformVolumeData data now) = length (exchange_buckets (tickers data))"
  "exchanges (transformVolumeData data now) =
     take 20 (js_sort by_volume_desc (map_values (exchange_buckets (tickers data))))"
  using js_slice_take [of "js_sort by_volume_desc (map_values (exchange_buckets (tickers data)))" 20]
  by (simp_all add: transformVolumeData_def Let_def length_js_sort map_values_def)

lemma first_ticker_fields:
  "map_get (exchange_buckets ts) k = Some e \<Longrightarrow>
   \<exists>t rest. tickers_of ts k = t # rest \<and> trust_score e = ticker_trust_score t
     \<and> trade_url e = url_or_undefined (ticker_trade_url t)"
proof (induction ts arbitrary: e rule: rev_induct)
  case Nil
  then show ?case by (simp add: exchange_buckets_def map_get_def)
next
  case (snoc t ts)
  let ?m = "exchange_buckets ts"
  show ?case
  proof (cases "unflagged t \<and> market_name t = k")
    case False
    then have same: "tickers_of (ts @ [t]) k = tickers_of ts k"
      by (auto simp: tickers_of_def)
    have "map_get (add_ticker ?m t) k = map_get ?m k"
      using False
      by (cases "map_get ?m (market_name t)")
         (auto simp: add_ticker_def unflagged_def Let_def map_get_map_set)
    with snoc.prems have "map_get ?m k = Some e"
      by (simp add: exchange_buckets_snoc)
    from snoc.IH [OF this] show ?thesis
      by (simp only: same)
  next
    case True
    then have more: "tickers_of (ts @ [t]) k = tickers_of ts k @ [t]"
      by (auto simp: tickers_of_def)
    show ?thesis
    proof (cases "map_get ?m k")
      case None
      then have e: "e = \<lparr>name = k, volume_usd = converted_volume_usd t, volume_near = volume t,
                trading_pairs = [pair_label t], trust_score = ticker_trust_score t,
                trade_url = url_or_undefined (ticker_trade_url t)\<rparr>"
        using snoc.prems True
        by (simp add: exchange_buckets_snoc add_ticker_def unflagged_def Let_def map_get_map_set)
      show ?thesis
        by (simp add: e more tickers_of_empty [OF None])
    next
      case (Some old)
      then have e: "e = old\<lparr>volume_usd := volume_usd old + converted_volume_usd t,
                 volume_near := volume_near old + volume t,
                 trading_pairs := (if pair_label t \<in> set (trading_pairs old)
                    then trading_pairs old else trading_pairs old @ [pair_label t])\<rparr>"
        using snoc.prems True
        by (simp add: exchange_buckets_snoc add_ticker_def unflagged_def Let_def map_get_map_set)
      from snoc.IH [OF Some] obtain t0 rest where
        "tickers_of ts k = t0 # rest" "trust_score old = ticker_trust_score t0"
        "trade_url old = url_or_undefined (ticker_trade_url t0)"
        by blast
      then show ?thesis
        by (simp add: e more)
    qed
  qed
qed

lemma keys_first_seen_aux:
  "map fst (foldl add_ticker m ts) =
   set_insert_all (map fst m) (map market_name (filter unflagged ts))"
  by (induction ts arbitrary: m) (simp_all add: map_fst_add_ticker)

lemma keys_first_seen:
  "map fst (exchange_buckets ts) = js_unique (map market_name (filter unflagged ts))"
  using keys_first_seen_aux [of "[]" ts] by (simp add: exchange_buckets_def js_unique_def)

lemma names_of_buckets:
  "map name (map_values (exchange_buckets ts)) = map fst (exchange_buckets ts)"
proof -
  have "map (fst \<circ> bucket_summary) (map_values (exchange_buckets ts)) =
        map (fst \<circ> aggregate_of ts) (map fst (exchange_buckets ts))"
    using summaries_of_buckets [of ts, THEN arg_cong, of "map fst"] by simp
  then show ?thesis
    by (simp add: bucket_summary_def aggregate_of_def comp_def)
qed

lemma filter_insert_by_volume:
  "filter (\<lambda>e. volume_usd e = v) (insert_by by_volume_desc x xs) =
   (if volume_usd x = v then x # filter (\<lambda>e. volume_usd e = v) xs
    else filter (\<lambda>e. volume_usd e = v) xs)"
  by (induction xs) (auto simp: by_volume_desc_def)

lemma js_sort_stable:
  "filter (\<lambda>e. volume_usd e = v) (js_sort by_volume_desc xs) = filter (\<lambda>e. volume_usd e = v) xs"
  by (induction xs) (simp_all add: js_sort_def filter_insert_by_volume)

lemma stored_first_ticker:
  assumes "ex \<in> set (exchanges (transformVolumeData data now))"
  shows "\<exists>t rest.
      filter (\<lambda>t. \<not> is_anomaly t \<and> \<not> is_stale t \<and> market_name t = name ex) (tickers data)
        = t # rest
      \<and> trust_score ex = ticker_trust_score t
      \<and> trade_url ex = url_or_undefined (ticker_trade_url t)"
proof -
  let ?B = "exchange_buckets (tickers data)"
  from assms have "ex \<in> set (js_sort by_volume_desc (map_values ?B))"
    unfolding transformVolumeData_fields by (rule in_set_takeD)
  then have "ex \<in> snd ` set ?B"
    by (simp add: set_js_sort map_values_def)
  then obtain k where k: "(k, ex) \<in> set ?B" by auto
  then have g: "map_get ?B k = Some ex"
    using keys_exchange_buckets(1) [of "tickers data"] by (simp add: map_get_def)
  from bucket_summaries [OF g] have nm: "name ex = k"
    by (simp add: bucket_summary_def aggregate_of_def)
  from first_ticker_fields [OF g] show ?thesis
    by (simp add: tickers_of_def unflagged_def nm conj_assoc)
qed

text \<open>
  Claim C4, as the code has it. For a ticker list and any permutation of it,
  transformVolumeData gives the same exchange_count, the same totals and the same
  descending sequence of stored volume_usd values, and before truncation the same buckets
  up to their order: name, USD volume, raw volume and set of trading pairs. When no two
  exchanges have the same USD volume, the stored exchanges agree in these four and in
  their order. No ticker flagged stale or anomalous contributes: the output is that of
  the list without the flagged tickers. What depends on the order of the input: the trust
  indicator and trade URL of every stored exchange are those of the first unflagged
  ticker of that exchange in the input; the buckets stand in the order in which the
  unflagged tickers first name their exchanges; and the sort that precedes the truncation
  to 20 leaves exchanges of equal USD volume in that order.
\<close>

theorem aggregation_under_reordering:
  assumes "mset (tickers data') = mset (tickers data)"
  shows "exchange_count (transformVolumeData data' now) =
        exchange_count (transformVolumeData data now)
    \<and> total_volume_usd (transformVolumeData data' now) =
        total_volume_usd (transformVolumeData data now)
    \<and> total_volume_near (transformVolumeData data' now) =
        total_volume_near (transformVolumeData data now)
    \<and> map volume_usd (exchanges (transformVolumeData data' now)) =
        map volume_usd (exchanges (transformVolumeData data now))
    \<and> mset (map bucket_summary (map_values (exchange_buckets (tickers data')))) =
        mset (map bucket_summary (map_values (exchange_buckets (tickers data))))
    \<and> (distinct (map volume_usd (map_values (exchange_buckets (tickers data)))) \<longrightarrow>
         map bucket_summary (exchanges (transformVolumeData data' now)) =
         map bucket_summary (exchanges (transformVolumeData data now)))
    \<and> transformVolumeData
         (data\<lparr>tickers := filter (\<lambda>t. \<not> is_anomaly t \<and> \<not> is_stale t) (tickers data)\<rparr>) now =
        transformVolumeData data now
    \<and> (\<forall>ex \<in> set (exchanges (transformVolumeData data now)). \<exists>t rest.
          filter (\<lambda>t. \<not> is_anomaly t \<and> \<not> is_stale t \<and> market_name t = name ex) (tickers data)
            = t # rest
          \<and> trust_score ex = ticker_trust_score t
          \<and> trade_url ex = url_or_undefined (ticker_trade_url t))
    \<and> map name (map_values (exchange_buckets (tickers data))) =
        js_unique (map market_name
          (filter (\<lambda>t. \<not> is_anomaly t \<and> \<not> is_stale t) (tickers data)))
    \<and> (\<forall>v. filter (\<lambda>ex. volume_usd ex = v)
               (js_sort by_volume_desc (map_values (exchange_buckets (tickers data)))) =
             filter (\<lambda>ex. volume_usd ex = v) (map_values (exchange_buckets (tickers data))))
    \<and> exchanges (transformVolumeData data now) =
        take 20 (js_sort by_volume_desc (map_values (exchange_buckets (tickers data))))"
proof -
  let ?B = "map_values (exchange_buckets (tickers data))"
  let ?B' = "map_values (exchange_buckets (tickers data'))"
  have ms: "mset (map bucket_summary ?B') = mset (map bucket_summary ?B)"
    by (rule mset_summaries [OF assms])
  have cnt: "exchange_count (transformVolumeData data' now) = exchange_count (transformVolumeData data now)"
  proof -
    have "length (map bucket_summary ?B') = length (map bucket_summary ?B)"
      using ms by (metis size_mset)
    then show ?thesis by (simp add: transformVolumeData_fields map_values_def)
  qed
  have fm: "mset (filter unflagged (tickers data')) = mset (filter unflagged (tickers data))"
    using assms by simp
  have usd: "total_volume_usd (transformVolumeData data' now) = total_volume_usd (transformVolumeData data now)"
    unfolding total_volume_usd_all_tickers using fm by (metis mset_map sum_mset_sum_list)
  have near: "total_volume_near (transformVolumeData data' now) = total_volume_near (transformVolumeData data now)"
    unfolding total_volume_near_all_tickers using fm by (metis mset_map sum_mset_sum_list)
  have vols: "map volume_usd (exchanges (transformVolumeData data' now)) =
        map volume_usd (exchanges (transformVolumeData data now))"
    using sorted_volumes_equal [OF ms]
    by (simp add: transformVolumeData_fields take_map [symmetric] del: take_map)
  have noties: "map bucket_summary (exchanges (transformVolumeData data' now)) =
         map bucket_summary (exchanges (transformVolumeData data now))"
    if "distinct (map volume_usd ?B)"
  proof -
    have "distinct (map volume_usd ?B')"
    proof -
      have "mset (map volume_usd ?B') = mset (map volume_usd ?B)"
        unfolding volumes_of_summaries using ms by (metis mset_map)
      then show ?thesis using that by (metis mset_eq_imp_distinct_iff)
    qed
    from sorted_summaries_equal [OF ms this] show ?thesis
      by (simp add: transformVolumeData_fields take_map [symmetric] del: take_map)
  qed
  have u: "unflagged = (\<lambda>t. \<not> is_anomaly t \<and> \<not> is_stale t)"
    by (rule ext) (simp add: unflagged_def)
  have flt: "transformVolumeData
         (data\<lparr>tickers := filter (\<lambda>t. \<not> is_anomaly t \<and> \<not> is_stale t) (tickers data)\<rparr>) now =
        transformVolumeData data now"
    using foldl_add_ticker_filter [of "[]" "tickers data"]
    by (simp add: transformVolumeData_def exchange_buckets_def u)
  have first: "\<forall>ex \<in> set (exchanges (transformVolumeData data now)). \<exists>t rest.
          filter (\<lambda>t. \<not> is_anomaly t \<and> \<not> is_stale t \<and> market_name t = name ex) (tickers data)
            = t # rest
          \<and> trust_score ex = ticker_trust_score t
          \<and> trade_url ex = url_or_undefined (ticker_trade_url t)"
    using stored_first_ticker [of _ data now] by blast
  have order: "map name ?B =
        js_unique (map market_name
          (filter (\<lambda>t. \<not> is_anomaly t \<and> \<not> is_stale t) (tickers data)))"
    using keys_first_seen [of "tickers data"] names_of_buckets [of "tickers data"]
    by (simp only: u)
  have stable: "\<forall>v. filter (\<lambda>ex. volume_usd ex = v) (js_sort by_volume_desc ?B) =
             filter (\<lambda>ex. volume_usd ex = v) ?B"
    by (simp add: js_sort_stable)
  have stored: "exchanges (transformVolumeData data now) = take 20 (js_sort by_volume_desc ?B)"
    by (rule transformVolumeData_fields(2))
  from cnt usd near vols ms noties flt have inv:
    "exchange_count (transformVolumeData data' now) =
        exchange_count (transformVolumeData data now)
    \<and> total_volume_usd (transformVolumeData data' now) =
        total_volume_usd (transformVolumeData data now)
    \<and> total_volume_near (transformVolumeData data' now) =
        total_volume_near (transformVolumeData data now)
    \<and> map volume_usd (exchanges (transformVolumeData data' now)) =
        map volume_usd (exchanges (transformVolumeData data now))
    \<and> mset (map bucket_summary ?B') = mset (map bucket_summary ?B)
    \<and> (distinct (map volume_usd ?B) \<longrightarrow>
         map bucket_summary (exchanges (transformVolumeData data' now)) =
         map bucket_summary (exchanges (transformVolumeData data now)))
    \<and> transformVolumeData
         (data\<lparr>tickers := filter (\<lambda>t. \<not> is_anomaly t \<and> \<not> is_stale t) (tickers data)\<rparr>) now =
        transformVolumeData data now"
    by blast
  have dep: "(\<forall>ex \<in> set (exchanges (transformVolumeData data now)). \<exists>t rest.
          filter (\<lambda>t. \<not> is_anomaly t \<and> \<not> is_stale t \<and> market_name t = name ex) (tickers data)
            = t # rest
          \<and> trust_score ex = ticker_trust_score t
          \<and> trade_url ex = url_or_undefined (ticker_trade_url t))
    \<and> map name ?B =
        js_unique (map market_name
          (filter (\<lambda>t. \<not> is_anomaly t \<and> \<not> is_stale t) (tickers data)))
    \<and> (\<forall>v. filter (\<lambda>ex. volume_usd ex = v) (js_sort by_volume_desc ?B) =
             filter (\<lambda>ex. volume_usd ex = v) ?B)
    \<and> exchanges (transformVolumeData data now) = take 20 (js_sort by_volume_desc ?B)"
    using first order stable stored by (intro conjI)
  from inv dep show ?thesis
    by (elim conjE) (intro conjI; assumption)
qed

theorem aggregation_under_reordering_witness:
  "mset (tickers response_3_reversed) = mset (tickers response_3)
   \<and> distinct (map volume_usd (map_values (exchange_buckets (tickers response_3))))
   \<and> map name (exchanges (transformVolumeData response_3 0)) = [''Y'', ''X'']
   \<and> map name (exchanges (transformVolumeData response_3_reversed 0)) = [''Y'', ''X'']
   \<and> map bucket_summary (exchanges (transformVolumeData response_3_reversed 0)) =
       map bucket_summary (exchanges (transformVolumeData response_3 0))
   \<and> exchange_count (transformVolumeData response_3_reversed 0) = 2
   \<and> total_volume_usd (transformVolumeData response_3_reversed 0) = 16"
proof -
  have m: "mset (tickers response_3_reversed) = mset (tickers response_3)"
    by (simp add: response_3_reversed_def)
  have d: "distinct (map volume_usd (map_values (exchange_buckets (tickers response_3))))"
    by code_simp
  have n: "map name (exchanges (transformVolumeData response_3 0)) = [''Y'', ''X'']"
          "map name (exchanges (transformVolumeData response_3_reversed 0)) = [''Y'', ''X'']"
    by code_simp+
  have c: "exchange_count (transformVolumeData response_3 0) = 2"
          "total_volume_usd (transformVolumeData response_3 0) = 16"
    by code_simp+
  from aggregation_under_reordering [OF m, of 0] d
  have "map bucket_summary (exchanges (transformVolumeData response_3_reversed 0)) =
          map bucket_summary (exchanges (transformVolumeData response_3 0))"
    and "exchange_count (transformVolumeData response_3_reversed 0) =
          exchange_count (transformVolumeData response_3 0)"
    and "total_volume_usd (transformVolumeData response_3_reversed 0) =
          total_volume_usd (transformVolumeData response_3 0)"
    by blast+
  with m d n c show ?thesis by simp
qed

text \<open>
  Claim C4 as stated fails. Two tickers of exchange X with the trust indicators green
  and red give an exchange marked green in one order and red in the other; and two
  exchanges of equal volume are stored in the order in which the input names them.
\<close>

theorem reordering_changes_output:
  "mset (tickers response_red_green) = mset (tickers response_green_red)
   \<and> map trust_score (exchanges (transformVolumeData response_green_red 0)) = [Some ''green'']
   \<and> map trust_score (exchanges (transformVolumeData response_red_green 0)) = [Some ''red'']
   \<and> mset (tickers response_tie_swapped) = mset (tickers response_tie)
   \<and> map name (exchanges (transformVolumeData response_tie 0)) = [''X'', ''Y'']
   \<and> map name (exchanges (transformVolumeData response_tie_swapped 0)) = [''Y'', ''X'']"
proof -
  have m: "mset (tickers response_red_green) = mset (tickers response_green_red)"
          "mset (tickers response_tie_swapped) = mset (tickers response_tie)"
    by (simp_all add: response_red_green_def response_green_red_def response_tie_def
        response_tie_swapped_def)
  have e: "map trust_score (exchanges (transformVolumeData response_green_red 0)) = [Some ''green'']"
          "map trust_score (exchanges (transformVolumeData response_red_green 0)) = [Some ''red'']"
          "map name (exchanges (transformVolumeData response_tie 0)) = [''X'', ''Y'']"
          "map name (exchanges (transformVolumeData response_tie_swapped 0)) = [''Y'', ''X'']"
    by code_simp+
  from m e show ?thesis by simp
qed

end
